theory Spec2Isabelle
  imports Complex_Main "HOL-Library.Log_Nat"
begin

section \<open>JavaScript values and completions\<close>

text \<open>
  The dashboard controller (\<^verbatim>\<open>static/js/dashboard.js\<close>) works on JSON data and on the
  page. The numbers of its JSON documents are the dashboard's counts: they are modelled as
  the integers the documents write (\<open>int\<close>). Where the code computes with them, in the
  tooltip of the doughnut chart, they are IEEE doubles (section ``JavaScript numbers''). A
  JSON object is a map from keys to values, a missing key reads as \<^verbatim>\<open>undefined\<close>
  (\<open>None\<close>). An exception is a value of \<open>js_error\<close>, and a function that can throw
  returns \<open>js_error + 'a\<close>.
\<close>

datatype js_error = TypeError | SyntaxError | NetworkError

text \<open>A variable that holds \<^verbatim>\<open>undefined\<close>, \<^verbatim>\<open>null\<close> or an object.\<close>

datatype 'a js_ref = Undefined | Null | Object 'a

text \<open>
  \<^verbatim>\<open>r.p\<close>: reading a property of \<^verbatim>\<open>undefined\<close> or \<^verbatim>\<open>null\<close> throws a TypeError.
\<close>

definition get_prop :: "'a js_ref \<Rightarrow> ('a \<Rightarrow> 'b) \<Rightarrow> js_error + 'b" where
  "get_prop r p = (case r of Object x \<Rightarrow> Inr (p x) | _ \<Rightarrow> Inl TypeError)"

text \<open>
  \<^verbatim>\<open>v || d\<close> on a number that may be missing: the left operand is falsy when it is
  \<^verbatim>\<open>undefined\<close> or \<open>0\<close>, and then the right operand is the result.
\<close>

definition num_or :: "int option \<Rightarrow> int \<Rightarrow> int" where
  "num_or v d = (case v of None \<Rightarrow> d | Some n \<Rightarrow> if n \<noteq> 0 then n else d)"

text \<open>\<^verbatim>\<open>v || d\<close> on an array that may be missing: every array is truthy.\<close>

definition arr_or :: "'a list option \<Rightarrow> 'a list \<Rightarrow> 'a list" where
  "arr_or v d = (case v of None \<Rightarrow> d | Some xs \<Rightarrow> xs)"

text \<open>\<^verbatim>\<open>String(n)\<close> for an integer \<open>n\<close>: its decimal digits, with a sign when negative.\<close>

fun digits :: "nat \<Rightarrow> string" where
  "digits n = (if n < 10 then [''0123456789'' ! n]
               else digits (n div 10) @ [''0123456789'' ! (n mod 10)])"

declare digits.simps [simp del]

definition number_to_string :: "int \<Rightarrow> string" where
  "number_to_string n = (if n < 0 then ''-'' @ digits (nat (- n)) else digits (nat n))"

section \<open>The page\<close>

text \<open>
  The parts of the document the controller reads and writes: the ids of the elements that
  exist, the charts constructed so far (\<^verbatim>\<open>new Chart(ctx, config)\<close> adds one), the
  \<^verbatim>\<open>h3\<close> of the k-th KPI card (\<^verbatim>\<open>.kpi-card:nth-child(k) h3\<close>), the KPI cards in
  document order, \<^verbatim>\<open>window.location.href\<close>, the console, and the callbacks handed to
  \<^verbatim>\<open>setTimeout\<close> that have not run yet, each with its delay in milliseconds.
\<close>

datatype chart_kind = Doughnut | Line

record chart =
  canvas :: string
  kind :: chart_kind
  chart_labels :: "string list"
  dataset_data :: "int list"

record h3_element =
  textContent :: string
  transform :: string

record card =
  card_transform :: string
  cursor :: string

datatype timer_action = ResetH3 nat | ResetCard nat

record page =
  element_ids :: "string list"
  charts :: "chart list"
  kpi_h3 :: "nat \<Rightarrow> h3_element option"
  kpi_cards :: "card list"
  location_href :: string
  console :: "string list"
  pending :: "(nat \<times> timer_action) list"

definition getElementById :: "page \<Rightarrow> string \<Rightarrow> string option" where
  "getElementById pg i = (if i \<in> set (element_ids pg) then Some i else None)"

definition new_Chart :: "chart \<Rightarrow> page \<Rightarrow> page" where
  "new_Chart c pg = pg\<lparr>charts := charts pg @ [c]\<rparr>"

section \<open>Chart renderers\<close>

type_synonym risk_distribution = "string \<Rightarrow> int option"

record assessment_trends =
  labels :: "string list option"
  counts :: "int list option"

text \<open>
  The array literal of \<^verbatim>\<open>initializeRiskDistributionChart\<close>:
  \<^verbatim>\<open>[data.low_risk || 0, data.moderate_risk || 0, data.high_risk || 0]\<close>.
  Each property read can throw; the first one that does ends the evaluation.
\<close>

definition risk_dataset :: "risk_distribution js_ref \<Rightarrow> js_error + int list" where
  "risk_dataset data =
     (case get_prop data (\<lambda>d. d ''low_risk'') of
        Inl e \<Rightarrow> Inl e
      | Inr lo \<Rightarrow>
          (case get_prop data (\<lambda>d. d ''moderate_risk'') of
             Inl e \<Rightarrow> Inl e
           | Inr mo \<Rightarrow>
               (case get_prop data (\<lambda>d. d ''high_risk'') of
                  Inl e \<Rightarrow> Inl e
                | Inr hi \<Rightarrow> Inr [num_or lo 0, num_or mo 0, num_or hi 0])))"

text \<open>
  \<^verbatim>\<open>initializeRiskDistributionChart(data)\<close>. The arguments of \<^verbatim>\<open>new Chart\<close> are
  evaluated before the chart is constructed, so an exception in the array literal leaves
  the page as it was. The styling options of the configuration are constants and are left
  out of \<open>chart\<close>.
\<close>

definition initializeRiskDistributionChart ::
    "risk_distribution js_ref \<Rightarrow> page \<Rightarrow> (js_error + unit) \<times> page" where
  "initializeRiskDistributionChart data pg =
     (case getElementById pg ''riskDistributionChart'' of
        None \<Rightarrow> (Inr (), pg)
      | Some ctx \<Rightarrow>
          (case risk_dataset data of
             Inl e \<Rightarrow> (Inl e, pg)
           | Inr ds \<Rightarrow>
               (Inr (), new_Chart \<lparr>canvas = ctx, kind = Doughnut,
                                    chart_labels = [''Low Risk'', ''Moderate Risk'', ''High Risk''],
                                    dataset_data = ds\<rparr> pg)))"

text \<open>\<^verbatim>\<open>initializeAssessmentTrendsChart(data)\<close>.\<close>

definition initializeAssessmentTrendsChart ::
    "assessment_trends js_ref \<Rightarrow> page \<Rightarrow> (js_error + unit) \<times> page" where
  "initializeAssessmentTrendsChart data pg =
     (case getElementById pg ''assessmentTrendsChart'' of
        None \<Rightarrow> (Inr (), pg)
      | Some ctx \<Rightarrow>
          (case get_prop data labels of
             Inl e \<Rightarrow> (Inl e, pg)
           | Inr ls \<Rightarrow>
               (case get_prop data counts of
                  Inl e \<Rightarrow> (Inl e, pg)
                | Inr cs \<Rightarrow>
                    (Inr (), new_Chart \<lparr>canvas = ctx, kind = Line,
                       chart_labels =
                         arr_or ls [''Mon'', ''Tue'', ''Wed'', ''Thu'', ''Fri'', ''Sat'', ''Sun''],
                       dataset_data = arr_or cs [0, 0, 0, 0, 0, 0, 0]\<rparr> pg))))"

section \<open>JavaScript numbers\<close>

text \<open>
  A JavaScript number is an IEEE 754 binary64 value: a finite double (here its exact
  rational value), an infinity or NaN. The sign of a zero is not modelled: \<open>Fin 0\<close> stands
  for both zeros.
\<close>

datatype jsnum = Fin rat | PosInf | NegInf | NaN

text \<open>\<open>floor_log2 a\<close> is the exponent \<open>e\<close> with \<open>2 ^ e \<le> a < 2 ^ (e + 1)\<close>, for \<open>a > 0\<close>.\<close>

definition floor_log2 :: "rat \<Rightarrow> int" where
  "floor_log2 a = (if 1 \<le> a then bitlen \<lfloor>a\<rfloor> - 1 else - bitlen (\<lceil>1 / a\<rceil> - 1))"

text \<open>Rounding to the nearest integer, a tie to the even one.\<close>

definition round_half_even :: "rat \<Rightarrow> int" where
  "round_half_even y =
     (let f = \<lfloor>y\<rfloor>; d = y - of_int f
      in if d < 1 / 2 then f else if 1 / 2 < d then f + 1 else if even f then f else f + 1)"

text \<open>
  The distance between neighbouring doubles at the magnitude \<open>a\<close>: 53 significant bits,
  and the fixed spacing of the subnormal numbers below \<open>2 ^ -1022\<close>.
\<close>

definition ulp :: "rat \<Rightarrow> rat" where
  "ulp a = (if a < 2 powi (- 1022) then 2 powi (- 1074) else 2 powi (floor_log2 a - 52))"

text \<open>
  The double an exact result is rounded to (round to nearest, ties to even); a result that
  rounds to \<open>2 ^ 1024\<close> or beyond overflows to an infinity.
\<close>

definition round_double :: "rat \<Rightarrow> jsnum" where
  "round_double x =
     (let a = \<bar>x\<bar>; r = of_int (round_half_even (a / ulp a)) * ulp a
      in if 2 ^ 1024 \<le> r then (if 0 < x then PosInf else NegInf)
         else Fin (if 0 < x then r else - r))"

text \<open>The number an integer literal of a JSON document parses to.\<close>

definition num_of_int :: "int \<Rightarrow> jsnum" where
  "num_of_int n = round_double (of_int n)"

text \<open>\<^verbatim>\<open>x + y\<close>, \<^verbatim>\<open>x * y\<close>, \<^verbatim>\<open>x / y\<close> and \<^verbatim>\<open>x > y\<close> on numbers.\<close>

fun js_add :: "jsnum \<Rightarrow> jsnum \<Rightarrow> jsnum" where
  "js_add (Fin a) (Fin b) = round_double (a + b)"
| "js_add NaN y = NaN"
| "js_add x NaN = NaN"
| "js_add PosInf NegInf = NaN"
| "js_add NegInf PosInf = NaN"
| "js_add PosInf y = PosInf"
| "js_add x PosInf = PosInf"
| "js_add NegInf y = NegInf"
| "js_add x NegInf = NegInf"

fun js_mul :: "jsnum \<Rightarrow> jsnum \<Rightarrow> jsnum" where
  "js_mul (Fin a) (Fin b) = round_double (a * b)"
| "js_mul NaN y = NaN"
| "js_mul x NaN = NaN"
| "js_mul (Fin a) PosInf = (if a = 0 then NaN else if 0 < a then PosInf else NegInf)"
| "js_mul (Fin a) NegInf = (if a = 0 then NaN else if 0 < a then NegInf else PosInf)"
| "js_mul PosInf (Fin b) = (if b = 0 then NaN else if 0 < b then PosInf else NegInf)"
| "js_mul NegInf (Fin b) = (if b = 0 then NaN else if 0 < b then NegInf else PosInf)"
| "js_mul PosInf PosInf = PosInf"
| "js_mul PosInf NegInf = NegInf"
| "js_mul NegInf PosInf = NegInf"
| "js_mul NegInf NegInf = PosInf"

fun js_div :: "jsnum \<Rightarrow> jsnum \<Rightarrow> jsnum" where
  "js_div (Fin a) (Fin b) =
     (if b = 0 then (if a = 0 then NaN else if 0 < a then PosInf else NegInf)
      else round_double (a / b))"
| "js_div NaN y = NaN"
| "js_div x NaN = NaN"
| "js_div (Fin a) PosInf = Fin 0"
| "js_div (Fin a) NegInf = Fin 0"
| "js_div PosInf (Fin b) = (if 0 \<le> b then PosInf else NegInf)"
| "js_div NegInf (Fin b) = (if 0 \<le> b then NegInf else PosInf)"
| "js_div PosInf PosInf = NaN"
| "js_div PosInf NegInf = NaN"
| "js_div NegInf PosInf = NaN"
| "js_div NegInf NegInf = NaN"

fun js_gt :: "jsnum \<Rightarrow> jsnum \<Rightarrow> bool" where
  "js_gt (Fin a) (Fin b) = (b < a)"
| "js_gt NaN y = False"
| "js_gt x NaN = False"
| "js_gt PosInf PosInf = False"
| "js_gt PosInf y = True"
| "js_gt x PosInf = False"
| "js_gt NegInf y = False"
| "js_gt x NegInf = True"

text \<open>
  A division that also records its divisor: the trace lists the divisors of the divisions
  evaluated so far.
\<close>

definition js_div_traced :: "jsnum \<Rightarrow> jsnum \<Rightarrow> jsnum list \<Rightarrow> jsnum \<times> jsnum list" where
  "js_div_traced x y tr = (js_div x y, tr @ [y])"

subsection \<open>The doughnut chart's tooltip label\<close>

text \<open>
  \<^verbatim>\<open>x.toFixed(1)\<close> (ECMAScript, Number.prototype.toFixed). For a number that is not finite
  the result is the string \<^verbatim>\<open>ToString(x)\<close>. Otherwise, for \<open>x < 0\<close> the sign is written
  and \<open>x\<close> negated; from \<open>10 ^ 21\<close> on the result is again \<^verbatim>\<open>ToString(x)\<close>; below, \<open>n\<close> is
  the integer for which \<open>n / 10 - x\<close> is closest to zero, the larger one when there are
  two, and the result is the digits of \<open>n\<close> with a point before the last one.
  \<open>toFixed1_n\<close> is that integer with the sign of \<open>x\<close>: the value printed, in tenths.
\<close>

definition toFixed1_n :: "rat \<Rightarrow> int" where
  "toFixed1_n x = (if x < 0 then - \<lfloor>- x * 10 + 1 / 2\<rfloor> else \<lfloor>x * 10 + 1 / 2\<rfloor>)"

text \<open>
  The value of the callback's constant \<^verbatim>\<open>percentage\<close>: the string \<^verbatim>\<open>toFixed(1)\<close> returns,
  either a decimal numeral with one decimal place (its sign, and its digits as a number of
  tenths) or \<^verbatim>\<open>ToString(x)\<close> for the number \<open>x\<close>; or the number 0.
\<close>

datatype percentage = Fixed1 bool nat | NumberString jsnum | Zero

definition toFixed1 :: "jsnum \<Rightarrow> percentage" where
  "toFixed1 x =
     (case x of
        Fin r \<Rightarrow> if \<bar>r\<bar> < 10 ^ 21 then Fixed1 (r < 0) (nat \<bar>toFixed1_n r\<bar>) else NumberString x
      | _ \<Rightarrow> NumberString x)"

text \<open>The number a percentage shows, in tenths of a percent, when it is a decimal numeral.\<close>

definition percentage_tenths :: "percentage \<Rightarrow> int option" where
  "percentage_tenths p =
     (case p of
        Fixed1 neg n \<Rightarrow> Some (if neg then - int n else int n)
      | NumberString x \<Rightarrow> None
      | Zero \<Rightarrow> Some 0)"

record tooltip_context =
  ctx_label :: "string option"
  ctx_parsed :: int
  ctx_data :: "int list"

text \<open>\<^verbatim>\<open>context.dataset.data.reduce((a, b) => a + b, 0)\<close>.\<close>

definition dataset_total :: "int list \<Rightarrow> jsnum" where
  "dataset_total ds = foldl (\<lambda>a b. js_add a b) (Fin 0) (map num_of_int ds)"

text \<open>
  The constant \<^verbatim>\<open>percentage\<close> of the label callback,
  \<^verbatim>\<open>total > 0 ? ((value / total) * 100).toFixed(1) : 0\<close>, together with the divisors of
  the divisions its evaluation has made.
\<close>

definition tooltip_percentage :: "tooltip_context \<Rightarrow> percentage \<times> jsnum list" where
  "tooltip_percentage c =
     (let v = num_of_int (ctx_parsed c); total = dataset_total (ctx_data c)
      in if js_gt total (Fin 0)
         then (case js_div_traced v total [] of
                 (q, tr) \<Rightarrow> (toFixed1 (js_mul q (Fin 100)), tr))
         else (Zero, []))"

text \<open>
  The string the callback returns. The built-in conversion of a number to a string is a
  parameter; a percentage that is a decimal numeral is written out.
\<close>

definition percentage_string :: "(jsnum \<Rightarrow> string) \<Rightarrow> percentage \<Rightarrow> string" where
  "percentage_string ToString p =
     (case p of
        Fixed1 neg n \<Rightarrow> (if neg then ''-'' else '''') @ digits (n div 10) @ ''.'' @ digits (n mod 10)
      | NumberString x \<Rightarrow> ToString x
      | Zero \<Rightarrow> ToString (Fin 0))"

definition tooltip_label :: "(jsnum \<Rightarrow> string) \<Rightarrow> tooltip_context \<Rightarrow> string" where
  "tooltip_label ToString c =
     (let label = (case ctx_label c of None \<Rightarrow> '''' | Some l \<Rightarrow> l);
          v = num_of_int (ctx_parsed c);
          percentage = fst (tooltip_percentage c)
      in label @ '': '' @ ToString v @ '' patients ('' @ percentage_string ToString percentage
           @ ''%)'')"

text \<open>
  The tooltip contexts of the chart drawn for a risk distribution: one for each slice,
  \<^verbatim>\<open>context.parsed\<close> the slice's value and \<^verbatim>\<open>context.dataset.data\<close> the whole dataset.
\<close>

definition slice_context :: "chart \<Rightarrow> nat \<Rightarrow> tooltip_context" where
  "slice_context ch i =
     \<lparr>ctx_label = Some (chart_labels ch ! i), ctx_parsed = dataset_data ch ! i,
      ctx_data = dataset_data ch\<rparr>"

text \<open>The tooltip percentages of a chart's slices.\<close>

definition slice_percentages :: "chart \<Rightarrow> percentage list" where
  "slice_percentages ch =
     map (\<lambda>i. fst (tooltip_percentage (slice_context ch i))) [0..<length (dataset_data ch)]"

text \<open>
  The sum of the numbers a list of percentages shows, in tenths of a percent; \<open>None\<close> when
  one of them is not a decimal numeral.
\<close>

fun sum_tenths :: "percentage list \<Rightarrow> int option" where
  "sum_tenths [] = Some 0"
| "sum_tenths (p # ps) =
     (case percentage_tenths p of
        None \<Rightarrow> None
      | Some n \<Rightarrow> (case sum_tenths ps of None \<Rightarrow> None | Some m \<Rightarrow> Some (n + m)))"

text \<open>The chart a renderer has just constructed: the last one of the page.\<close>

definition drawn :: "(js_error + unit) \<times> page \<Rightarrow> chart" where
  "drawn r = last (charts (snd r))"

section \<open>Refreshing the KPI cards\<close>

type_synonym stats_snapshot = "string \<Rightarrow> int option"

text \<open>The JSON document of \<^verbatim>\<open>/api/dashboard-data\<close>; a missing \<^verbatim>\<open>stats\<close> is \<open>Undefined\<close>.\<close>

record dashboard_data =
  stats :: "stats_snapshot js_ref"

text \<open>
  What \<^verbatim>\<open>await fetch(...)\<close> gives: the promise rejects (a network error), or it resolves
  to a response with its \<^verbatim>\<open>ok\<close> flag and with what \<^verbatim>\<open>await response.json()\<close> would give,
  a rejection (the body does not parse) or the parsed document.
\<close>

datatype fetch_outcome =
  FetchRejected
  | FetchResponse bool "js_error + dashboard_data js_ref"

definition console_log :: "string \<Rightarrow> page \<Rightarrow> page" where
  "console_log msg pg = pg\<lparr>console := console pg @ [msg]\<rparr>"

text \<open>\<^verbatim>\<open>document.querySelector('.kpi-card:nth-child(k) h3')\<close>: a reference to the element, or null.\<close>

definition querySelector_kpi :: "page \<Rightarrow> nat \<Rightarrow> nat option" where
  "querySelector_kpi pg k = (case kpi_h3 pg k of None \<Rightarrow> None | Some el \<Rightarrow> Some k)"

text \<open>The object \<^verbatim>\<open>kpiElements\<close> of \<^verbatim>\<open>updateKPICards\<close>, its keys in insertion order.\<close>

definition kpiElements :: "page \<Rightarrow> (string \<times> nat option) list" where
  "kpiElements pg =
     [(''totalPatients'', querySelector_kpi pg 1),
      (''totalAssessments'', querySelector_kpi pg 2),
      (''highRiskCount'', querySelector_kpi pg 3),
      (''assessmentsThisWeek'', querySelector_kpi pg 4)]"

text \<open>
  The three statements of the \<^verbatim>\<open>if\<close> body: scale the element up, write the value into
  \<^verbatim>\<open>textContent\<close> (which converts it to a string), and ask for the scale to be reset
  150 ms later.
\<close>

definition show_stat :: "nat \<Rightarrow> int \<Rightarrow> page \<Rightarrow> page" where
  "show_stat k v pg =
     (case kpi_h3 pg k of
        None \<Rightarrow> pg
      | Some el \<Rightarrow>
          pg\<lparr>kpi_h3 := (kpi_h3 pg)
                 (k \<mapsto> el\<lparr>transform := ''scale(1.1)'', textContent := number_to_string v\<rparr>),
             pending := pending pg @ [(150, ResetH3 k)]\<rparr>)"

text \<open>
  The \<^verbatim>\<open>forEach\<close> over the keys. \<^verbatim>\<open>element && stats[key]\<close>: a null element ends the
  condition before \<^verbatim>\<open>stats[key]\<close> is read; the read throws when \<^verbatim>\<open>stats\<close> is undefined or
  null; the value read is falsy when the key is missing or the number is 0.
\<close>

fun forEach_key ::
    "(string \<times> nat option) list \<Rightarrow> stats_snapshot js_ref \<Rightarrow> page \<Rightarrow> (js_error + unit) \<times> page" where
  "forEach_key [] st pg = (Inr (), pg)"
| "forEach_key ((key, element) # rest) st pg =
     (case element of
        None \<Rightarrow> forEach_key rest st pg
      | Some k \<Rightarrow>
          (case get_prop st (\<lambda>s. s key) of
             Inl e \<Rightarrow> (Inl e, pg)
           | Inr None \<Rightarrow> forEach_key rest st pg
           | Inr (Some v) \<Rightarrow>
               if v \<noteq> 0 then forEach_key rest st (show_stat k v pg)
               else forEach_key rest st pg))"

definition updateKPICards :: "stats_snapshot js_ref \<Rightarrow> page \<Rightarrow> (js_error + unit) \<times> page" where
  "updateKPICards st pg = forEach_key (kpiElements pg) st pg"

text \<open>The body of the \<^verbatim>\<open>try\<close> block of \<^verbatim>\<open>refreshDashboardData\<close>.\<close>

definition refresh_try :: "fetch_outcome \<Rightarrow> page \<Rightarrow> (js_error + unit) \<times> page" where
  "refresh_try f pg =
     (case f of
        FetchRejected \<Rightarrow> (Inl NetworkError, pg)
      | FetchResponse ok body \<Rightarrow>
          if ok then
            (case body of
               Inl e \<Rightarrow> (Inl e, pg)
             | Inr data \<Rightarrow>
                 (case get_prop data stats of
                    Inl e \<Rightarrow> (Inl e, pg)
                  | Inr st \<Rightarrow>
                      (case updateKPICards st pg of
                         (Inl e, pg') \<Rightarrow> (Inl e, pg')
                       | (Inr u, pg') \<Rightarrow> (Inr (), console_log ''Dashboard data refreshed'' pg'))))
          else (Inr (), pg))"

text \<open>
  \<^verbatim>\<open>refreshDashboardData()\<close>: the \<^verbatim>\<open>catch\<close> block logs whatever the \<^verbatim>\<open>try\<close> block threw.
  The result is how the promise of the async function settles.
\<close>

definition refreshDashboardData :: "fetch_outcome \<Rightarrow> page \<Rightarrow> (js_error + unit) \<times> page" where
  "refreshDashboardData f pg =
     (case refresh_try f pg of
        (Inl e, pg') \<Rightarrow>
          (Inr (), console_log
             ''Dashboard refresh failed (this is normal if API endpoint not implemented):'' pg')
      | (Inr u, pg') \<Rightarrow> (Inr (), pg'))"

text \<open>The text each KPI counter displays, for the four cards in order.\<close>

definition displayed_counters :: "page \<Rightarrow> string option list" where
  "displayed_counters pg = map (\<lambda>k. map_option textContent (kpi_h3 pg k)) [1, 2, 3, 4]"

section \<open>KPI card clicks\<close>

text \<open>The \<^verbatim>\<open>switch (index)\<close> of the click handler: the address to navigate to, if any.\<close>

definition kpi_card_target :: "nat \<Rightarrow> string option" where
  "kpi_card_target index =
     (if index = 0 then Some ''/patients''
      else if index = 1 then Some ''/patients''
      else if index = 2 then Some ''/patients?filter=high_risk''
      else if index = 3 then Some ''/patients?filter=recent''
      else None)"

text \<open>
  The click handler \<^verbatim>\<open>addKPICardInteractions\<close> registers on the card at \<open>index\<close>: the
  click effect, its reset 100 ms later, and the navigation.
\<close>

definition kpi_card_click :: "nat \<Rightarrow> page \<Rightarrow> page" where
  "kpi_card_click index pg =
     (let pg1 = pg\<lparr>kpi_cards := (kpi_cards pg)
                     [index := (kpi_cards pg ! index)\<lparr>card_transform := ''scale(0.98)''\<rparr>],
                   pending := pending pg @ [(100, ResetCard index)]\<rparr>
      in case kpi_card_target index of
           None \<Rightarrow> pg1
         | Some url \<Rightarrow> pg1\<lparr>location_href := url\<rparr>)"

text \<open>\<^verbatim>\<open>addKPICardInteractions()\<close> itself gives every card the pointer cursor.\<close>

definition addKPICardInteractions :: "page \<Rightarrow> page" where
  "addKPICardInteractions pg =
     pg\<lparr>kpi_cards := map (\<lambda>c. c\<lparr>cursor := ''pointer''\<rparr>) (kpi_cards pg)\<rparr>"

text \<open>The callbacks of the two \<^verbatim>\<open>setTimeout\<close> calls, when they run.\<close>

definition run_timer :: "timer_action \<Rightarrow> page \<Rightarrow> page" where
  "run_timer a pg =
     (case a of
        ResetH3 k \<Rightarrow>
          (case kpi_h3 pg k of
             None \<Rightarrow> pg
           | Some el \<Rightarrow> pg\<lparr>kpi_h3 := (kpi_h3 pg)(k \<mapsto> el\<lparr>transform := ''scale(1)''\<rparr>)\<rparr>)
      | ResetCard i \<Rightarrow>
          pg\<lparr>kpi_cards := (kpi_cards pg)[i := (kpi_cards pg ! i)\<lparr>card_transform := ''''\<rparr>]\<rparr>)"

section \<open>The search filter\<close>

text \<open>
  An element selected by the \<^verbatim>\<open>data-search\<close> attribute of a search input: its text content
  and its \<^verbatim>\<open>style.display\<close>.
\<close>

record search_item =
  item_text :: string
  display :: string

text \<open>\<^verbatim>\<open>text.includes(t)\<close>: \<open>t\<close> occurs in \<open>text\<close> at some position.\<close>

fun js_includes :: "'a list \<Rightarrow> 'a list \<Rightarrow> bool" where
  "js_includes [] t = (t = [])"
| "js_includes (c # cs) t = (take (length t) (c # cs) = t \<or> js_includes cs t)"

text \<open>
  The handler of the \<^verbatim>\<open>input\<close> event, for the input's value and the items its selector
  finds. The built-in \<^verbatim>\<open>String.prototype.toLowerCase\<close> is a parameter.
\<close>

definition search_filter ::
    "(string \<Rightarrow> string) \<Rightarrow> string \<Rightarrow> search_item list \<Rightarrow> search_item list" where
  "search_filter toLowerCase v items =
     (let searchTerm = toLowerCase v
      in map (\<lambda>item.
                let text = toLowerCase (item_text item)
                in if js_includes text searchTerm then item\<lparr>display := ''''\<rparr>
                   else item\<lparr>display := ''none''\<rparr>) items)"

text \<open>Lower-casing of ASCII letters, to run the filter on examples.\<close>

definition ascii_lower :: "string \<Rightarrow> string" where
  "ascii_lower s =
     map (\<lambda>c. case map_of (zip ''ABCDEFGHIJKLMNOPQRSTUVWXYZ'' ''abcdefghijklmnopqrstuvwxyz'') c of
                None \<Rightarrow> c
              | Some l \<Rightarrow> l) s"

section \<open>Debounce\<close>

text \<open>
  \<^verbatim>\<open>debounce(func, wait)\<close> returns the closure \<^verbatim>\<open>executedFunction\<close>, which shares the variable
  \<^verbatim>\<open>timeout\<close> with the callbacks \<^verbatim>\<open>later\<close> it hands to \<^verbatim>\<open>setTimeout\<close>. The state is the
  clock in milliseconds, the table of pending timers (the id \<^verbatim>\<open>setTimeout\<close> returned, the
  time the timer is due, and the arguments its \<^verbatim>\<open>later\<close> has captured), the next timer id,
  the variable \<^verbatim>\<open>timeout\<close> (\<open>None\<close> while it is undefined), and the calls of \<^verbatim>\<open>func\<close>
  made so far, each by its arguments.
\<close>

record 'a debounce_state =
  clock :: nat
  next_id :: nat
  queue :: "(nat \<times> nat \<times> 'a) list"
  timeout :: "nat option"
  calls :: "'a list"

definition debounce_init :: "'a debounce_state" where
  "debounce_init = \<lparr>clock = 0, next_id = 1, queue = [], timeout = None, calls = []\<rparr>"

text \<open>\<^verbatim>\<open>clearTimeout(h)\<close>: the timer with that id, if any, is dropped.\<close>

definition clearTimeout :: "nat option \<Rightarrow> (nat \<times> nat \<times> 'a) list \<Rightarrow> (nat \<times> nat \<times> 'a) list" where
  "clearTimeout h q = (case h of None \<Rightarrow> q | Some i \<Rightarrow> filter (\<lambda>x. fst x \<noteq> i) q)"

text \<open>
  \<^verbatim>\<open>executedFunction(...args)\<close>: \<^verbatim>\<open>clearTimeout(timeout); timeout = setTimeout(later, wait)\<close>.
\<close>

definition executedFunction :: "nat \<Rightarrow> 'a \<Rightarrow> 'a debounce_state \<Rightarrow> 'a debounce_state" where
  "executedFunction wait args s =
     (let q = clearTimeout (timeout s) (queue s); i = next_id s
      in s\<lparr>queue := q @ [(i, clock s + wait, args)], next_id := Suc i, timeout := Some i\<rparr>)"

text \<open>\<^verbatim>\<open>later()\<close>: \<^verbatim>\<open>clearTimeout(timeout); func(...args)\<close>.\<close>

definition later :: "'a \<Rightarrow> 'a debounce_state \<Rightarrow> 'a debounce_state" where
  "later args s = s\<lparr>queue := clearTimeout (timeout s) (queue s), calls := calls s @ [args]\<rparr>"

text \<open>
  The event loop. Among the timers due at or before \<open>t\<close>, the one due first (the one set
  first, among equals) is taken off the table and its callback runs at its due time; this
  repeats until none is due, and then the clock is \<open>t\<close>.
\<close>

fun earliest :: "(nat \<times> nat \<times> 'a) list \<Rightarrow> (nat \<times> nat \<times> 'a) option" where
  "earliest [] = None"
| "earliest (x # xs) =
     (case earliest xs of
        None \<Rightarrow> Some x
      | Some y \<Rightarrow> if fst (snd y) < fst (snd x) then Some y else Some x)"

function run_until :: "nat \<Rightarrow> 'a debounce_state \<Rightarrow> 'a debounce_state" where
  "run_until t s =
     (case earliest (filter (\<lambda>x. fst (snd x) \<le> t) (queue s)) of
        None \<Rightarrow> s\<lparr>clock := t\<rparr>
      | Some x \<Rightarrow>
          run_until t
            (later (snd (snd x))
               (s\<lparr>clock := fst (snd x), queue := filter (\<lambda>y. fst y \<noteq> fst x) (queue s)\<rparr>)))"
  by pat_completeness auto
termination
proof (relation "measure (\<lambda>(t, s). length (queue s))")
  show "wf (measure (\<lambda>(t, s :: 'a debounce_state). length (queue s)))"
    by simp
next
  fix t :: nat and s :: "'a debounce_state" and x :: "nat \<times> nat \<times> 'a"
  assume e: "earliest (filter (\<lambda>x. fst (snd x) \<le> t) (queue s)) = Some x"
  have mem: "earliest q = Some y \<Longrightarrow> y \<in> set q" for q :: "(nat \<times> nat \<times> 'a) list" and y
    by (induction q arbitrary: y) (auto split: option.splits if_splits)
  from mem [OF e] have "x \<in> set (queue s)"
    by simp
  then have "length (filter (\<lambda>y. fst y \<noteq> fst x) (queue s)) < length (queue s)"
    by (simp add: length_filter_less)
  moreover have "length (clearTimeout h q) \<le> length q" for h and q :: "(nat \<times> nat \<times> 'a) list"
    by (simp add: clearTimeout_def split: option.splits)
  ultimately have
    "length (clearTimeout (timeout s) (filter (\<lambda>y. fst y \<noteq> fst x) (queue s))) < length (queue s)"
    by (meson le_less_trans)
  then show "((t, later (snd (snd x))
                (s\<lparr>clock := fst (snd x), queue := filter (\<lambda>y. fst y \<noteq> fst x) (queue s)\<rparr>)),
              (t, s)) \<in> measure (\<lambda>(t, s). length (queue s))"
    by (simp add: later_def)
qed

declare run_until.simps [simp del]

text \<open>
  A burst of calls of the debounced function: each call is given with the time that has
  passed since the call before it (since the start, for the first call) and with its
  arguments. Timers that fall due before a call run before it.
\<close>

fun run_calls :: "nat \<Rightarrow> (nat \<times> 'a) list \<Rightarrow> 'a debounce_state \<Rightarrow> 'a debounce_state" where
  "run_calls wait [] s = s"
| "run_calls wait ((gap, args) # cs) s =
     run_calls wait cs (executedFunction wait args (run_until (clock s + gap) s))"

text \<open>
  The state between the calls of a burst: \<^verbatim>\<open>func\<close> has not run, and the only pending timer
  is the one \<^verbatim>\<open>timeout\<close> names, due \<open>wait\<close> after the last call, with that call's
  arguments.
\<close>

definition armed :: "nat \<Rightarrow> 'a \<Rightarrow> 'a debounce_state \<Rightarrow> bool" where
  "armed wait a s \<longleftrightarrow>
     calls s = []
     \<and> (case timeout s of None \<Rightarrow> False | Some i \<Rightarrow> queue s = [(i, clock s + wait, a)])"

section \<open>Example inputs\<close>

text \<open>
  A dashboard page with both canvases and four KPI cards, the same page without the
  canvases, and some JSON inputs.
\<close>

definition canvas_page :: page where
  "canvas_page =
     \<lparr>element_ids = [''chartData'', ''riskDistributionChart'', ''assessmentTrendsChart''],
      charts = [],
      kpi_h3 = map_of [(1, \<lparr>textContent = ''12'', transform = ''''\<rparr>),
                       (2, \<lparr>textContent = ''30'', transform = ''''\<rparr>),
                       (3, \<lparr>textContent = ''3'', transform = ''''\<rparr>),
                       (4, \<lparr>textContent = ''5'', transform = ''''\<rparr>)],
      kpi_cards = replicate 4 \<lparr>card_transform = '''', cursor = ''''\<rparr>,
      location_href = ''/dashboard'',
      console = [],
      pending = []\<rparr>"

definition bare_page :: page where
  "bare_page = canvas_page\<lparr>element_ids := [''chartData'']\<rparr>"

definition thirds :: risk_distribution where
  "thirds = map_of [(''low_risk'', 1), (''moderate_risk'', 1), (''high_risk'', 1)]"

definition no_risk :: risk_distribution where
  "no_risk = map_of []"

definition only_high :: risk_distribution where
  "only_high = map_of [(''high_risk'', 7)]"

definition all_trends :: assessment_trends where
  "all_trends = \<lparr>labels = Some [''W1'', ''W2''], counts = Some [4, 9]\<rparr>"

definition no_trends :: assessment_trends where
  "no_trends = \<lparr>labels = None, counts = None\<rparr>"

text \<open>
  A stats snapshot in which the number of high-risk patients has dropped to 0, and the
  successful fetch that delivers it.
\<close>

definition zero_high_stats :: stats_snapshot where
  "zero_high_stats = map_of [(''totalPatients'', 15), (''totalAssessments'', 31),
                             (''highRiskCount'', 0), (''assessmentsThisWeek'', 6)]"

definition zero_high_fetch :: fetch_outcome where
  "zero_high_fetch = FetchResponse True (Inr (Object \<lparr>stats = Object zero_high_stats\<rparr>))"

definition patient_rows :: "search_item list" where
  "patient_rows = [\<lparr>item_text = ''Jane DOE'', display = ''none''\<rparr>,
                   \<lparr>item_text = ''John Smith'', display = ''''\<rparr>]"

text \<open>Three key strokes in a search input debounced by 300 ms, 100 ms and 299 ms apart.\<close>

definition key_strokes :: "(nat \<times> string) list" where
  "key_strokes = [(50, ''d''), (100, ''do''), (299, ''doe'')]"

text \<open>
  Tooltip contexts: a slice of the distribution 1, 1, 1; a slice of an empty distribution;
  and the slice 23 of the distribution 23, 57, 0, whose exact percentage 28.75 lies
  half-way between two tenths.
\<close>

definition third_context :: tooltip_context where
  "third_context = \<lparr>ctx_label = Some ''High Risk'', ctx_parsed = 1, ctx_data = [1, 1, 1]\<rparr>"

definition zero_context :: tooltip_context where
  "zero_context = \<lparr>ctx_label = Some ''High Risk'', ctx_parsed = 0, ctx_data = [0, 0, 0]\<rparr>"

definition tie_context :: tooltip_context where
  "tie_context = \<lparr>ctx_label = Some ''Low Risk'', ctx_parsed = 23, ctx_data = [23, 57, 0]\<rparr>"

section \<open>Rounding to doubles\<close>

lemma bitlen_pos: "0 < n \<Longrightarrow> 1 \<le> bitlen n"
  using bitlen_eq_zero_iff [of n] bitlen_nonneg [of n] by linarith

lemma powi_nonneg_eq: "0 \<le> k \<Longrightarrow> (2::rat) powi k = 2 ^ nat k"
  by (simp add: power_int_def)

lemma floor_log2_le:
  assumes "0 < a"
  shows "2 powi (floor_log2 a) \<le> a"
proof (cases "1 \<le> a")
  case True
  define n where "n = \<lfloor>a\<rfloor>"
  have n: "0 < n" using True by (simp add: n_def)
  from bitlen_bounds [OF n] have "2 ^ nat (bitlen n - 1) \<le> n" ..
  then have "(of_int (2 ^ nat (bitlen n - 1)) :: rat) \<le> of_int n"
    by (simp only: of_int_le_iff)
  also have "\<dots> \<le> a" by (simp add: n_def)
  finally have "(2::rat) ^ nat (bitlen n - 1) \<le> a" by simp
  moreover have "0 \<le> bitlen n - 1" using bitlen_pos [OF n] by simp
  ultimately show ?thesis
    using True by (simp add: floor_log2_def n_def [symmetric] powi_nonneg_eq)
next
  case False
  define m where "m = \<lceil>1 / a\<rceil> - 1"
  define k where "k = bitlen m"
  from False assms have b: "1 < 1 / a" by simp
  then have m: "0 < m" by (simp add: m_def)
  from bitlen_bounds [OF m] have "m < 2 ^ nat k" by (simp add: k_def)
  then have "m + 1 \<le> 2 ^ nat k" by simp
  then have "(of_int (m + 1) :: rat) \<le> of_int (2 ^ nat k)"
    by (simp only: of_int_le_iff)
  then have "(of_int \<lceil>1 / a\<rceil> :: rat) \<le> 2 ^ nat k"
    by (simp add: m_def)
  moreover have "1 / a \<le> of_int \<lceil>1 / a\<rceil>" by (rule le_of_int_ceiling)
  ultimately have "1 / a \<le> 2 ^ nat k" by linarith
  with assms have "1 \<le> 2 ^ nat k * a" by (simp add: field_simps)
  then have "1 / 2 ^ nat k \<le> a" by (simp add: field_simps)
  moreover have "0 \<le> k" by (simp add: k_def bitlen_nonneg)
  ultimately show ?thesis
    using False
    by (simp add: floor_log2_def m_def [symmetric] k_def [symmetric] power_int_minus
        powi_nonneg_eq inverse_eq_divide)
qed

lemma floor_log2_gt:
  assumes "0 < a"
  shows "a < 2 powi (floor_log2 a + 1)"
proof (cases "1 \<le> a")
  case True
  define n where "n = \<lfloor>a\<rfloor>"
  have n: "0 < n" using True by (simp add: n_def)
  from bitlen_bounds [OF n] have "n < 2 ^ nat (bitlen n)" ..
  then have "n + 1 \<le> 2 ^ nat (bitlen n)" by simp
  then have "(of_int (n + 1) :: rat) \<le> of_int (2 ^ nat (bitlen n))"
    by (simp only: of_int_le_iff)
  moreover have "a < of_int (n + 1)" unfolding n_def by simp linarith
  ultimately have "a < 2 ^ nat (bitlen n)" by simp
  then show ?thesis
    using True bitlen_nonneg [of n]
    by (simp add: floor_log2_def n_def [symmetric] powi_nonneg_eq)
next
  case False
  define m where "m = \<lceil>1 / a\<rceil> - 1"
  define k where "k = bitlen m"
  from False assms have b: "1 < 1 / a" by simp
  then have m: "0 < m" by (simp add: m_def)
  have k: "1 \<le> k" unfolding k_def by (rule bitlen_pos [OF m])
  from bitlen_bounds [OF m] have "2 ^ nat (k - 1) \<le> m" by (simp add: k_def)
  then have "(of_int (2 ^ nat (k - 1)) :: rat) \<le> of_int m"
    by (simp only: of_int_le_iff)
  then have "(2::rat) ^ nat (k - 1) \<le> of_int m" by simp
  moreover have "of_int m < 1 / a"
    unfolding m_def using ceiling_correct [of "1 / a"] by simp
  ultimately have "2 ^ nat (k - 1) < 1 / a" by linarith
  with assms have "2 ^ nat (k - 1) * a < 1" by (simp add: field_simps)
  then have "a < 1 / 2 ^ nat (k - 1)" by (simp add: field_simps)
  moreover have "(2::rat) powi (- k + 1) = 1 / 2 ^ nat (k - 1)"
  proof -
    have "(2::rat) powi (- k + 1) = 2 powi (- (k - 1))" by simp
    also have "\<dots> = inverse (2 powi (k - 1))" by (rule power_int_minus)
    also have "\<dots> = 1 / 2 ^ nat (k - 1)" using k by (simp add: powi_nonneg_eq inverse_eq_divide)
    finally show ?thesis .
  qed
  ultimately show ?thesis
    using False by (simp add: floor_log2_def m_def [symmetric] k_def [symmetric])
qed

lemma powi_exp_less:
  assumes "(2::rat) powi e \<le> a" "a < 2 powi (e' + 1)"
  shows "e \<le> e'"
proof -
  from assms have lt: "(2::rat) powi e < 2 powi (e' + 1)" by linarith
  show ?thesis
  proof (rule ccontr)
    assume "\<not> e \<le> e'"
    then have "e' + 1 \<le> e" by simp
    then have "(2::rat) powi (e' + 1) \<le> 2 powi e"
      by (rule power_int_increasing) simp
    with lt show False by simp
  qed
qed

lemma floor_log2_eqI:
  assumes "2 powi e \<le> a" "a < 2 powi (e + 1)"
  shows "floor_log2 a = e"
proof -
  have "(0::rat) < 2 powi e" by simp
  with assms(1) have a: "0 < a" by linarith
  from powi_exp_less [OF assms(1) floor_log2_gt [OF a]]
    powi_exp_less [OF floor_log2_le [OF a] assms(2)]
  show ?thesis by simp
qed

lemma round_half_even_close: "\<bar>of_int (round_half_even y) - y\<bar> \<le> 1 / 2"
proof -
  have "of_int \<lfloor>y\<rfloor> \<le> y" "y < of_int \<lfloor>y\<rfloor> + 1" by linarith+
  then show ?thesis
    by (auto simp add: round_half_even_def Let_def abs_le_iff)
qed

lemma round_half_even_eqI:
  assumes "\<bar>y - of_int m\<bar> < 1 / 2"
  shows "round_half_even y = m"
proof -
  from round_half_even_close [of y] assms
  have "\<bar>(of_int (round_half_even y) :: rat) - of_int m\<bar> < 1" by linarith
  then have "\<bar>of_int (round_half_even y - m) :: rat\<bar> < of_int 1" by simp
  then have "\<bar>round_half_even y - m\<bar> < 1"
    by (simp only: of_int_abs [symmetric] of_int_less_iff)
  then show ?thesis by simp
qed

lemma round_half_even_of_int: "round_half_even (of_int m) = m"
  by (rule round_half_even_eqI) simp

lemma round_double_zero: "round_double 0 = Fin 0"
  by (simp add: round_double_def ulp_def round_half_even_def)

lemma round_double_close:
  assumes lo: "2 powi (- 1022) \<le> \<bar>x\<bar>" and hi: "\<bar>x\<bar> \<le> 2 ^ 1023"
  shows "\<exists>r. round_double x = Fin r \<and> \<bar>r - x\<bar> \<le> \<bar>x\<bar> / 2 ^ 53"
proof -
  define a where "a = \<bar>x\<bar>"
  define u where "u = ulp a"
  define m where "m = round_half_even (a / u)"
  have "(0::rat) < 2 powi (- 1022)" by simp
  with lo have a: "0 < a" unfolding a_def by linarith
  have u: "u = 2 powi (floor_log2 a - 52)"
    using lo by (simp add: u_def ulp_def a_def)
  have u0: "0 < u" by (simp add: u)
  have "u = 2 powi (floor_log2 a) / 2 ^ 52"
    unfolding u by (simp add: power_int_diff)
  also have "\<dots> \<le> a / 2 ^ 52"
    using floor_log2_le [OF a] by (simp add: divide_right_mono)
  finally have ua: "u \<le> a / 2 ^ 52" .
  have "\<bar>of_int m - a / u\<bar> \<le> 1 / 2"
    unfolding m_def by (rule round_half_even_close)
  then have "\<bar>of_int m - a / u\<bar> * u \<le> 1 / 2 * u"
    using u0 by (intro mult_right_mono) simp_all
  moreover have "\<bar>of_int m - a / u\<bar> * u = \<bar>of_int m * u - a\<bar>"
  proof -
    have "of_int m * u - a = (of_int m - a / u) * u"
      using u0 by (simp add: field_simps)
    then have "\<bar>of_int m * u - a\<bar> = \<bar>of_int m - a / u\<bar> * \<bar>u\<bar>"
      by (simp only: abs_mult)
    with u0 show ?thesis by simp
  qed
  ultimately have cl: "\<bar>of_int m * u - a\<bar> \<le> u / 2" by simp
  with ua have rel: "\<bar>of_int m * u - a\<bar> \<le> a / 2 ^ 53" by simp
  have "of_int m * u < 2 ^ 1024"
  proof -
    have "a / 2 ^ 53 < a" using a by simp
    moreover from rel have "of_int m * u \<le> a + a / 2 ^ 53" by linarith
    moreover have "a \<le> 2 ^ 1023" using hi by (simp only: a_def)
    moreover have "(2::rat) ^ 1024 = 2 * 2 ^ 1023" by simp
    ultimately show ?thesis by linarith
  qed
  then have rd: "round_double x = Fin (if 0 < x then of_int m * u else - (of_int m * u))"
    unfolding round_double_def a_def [symmetric] Let_def u_def [symmetric] m_def [symmetric]
    by simp
  show ?thesis
  proof (cases "0 < x")
    case True
    with rel show ?thesis by (auto simp add: rd a_def)
  next
    case False
    then have "a = - x" by (simp add: a_def)
    with rel False show ?thesis by (auto simp add: rd abs_le_iff)
  qed
qed

lemma round_double_exact:
  assumes "0 \<le> n" "n < 2 ^ 53"
  shows "round_double (of_int n) = Fin (of_int n)"
proof (cases "n = 0")
  case True
  then show ?thesis by (simp add: round_double_zero)
next
  case False
  with assms have n: "1 \<le> n" by simp
  define a :: rat where "a = of_int n"
  define e where "e = floor_log2 a"
  have a1: "1 \<le> a" using n by (simp add: a_def)
  then have a: "0 < a" by simp
  have "(2::rat) powi (- 1022) \<le> 1"
    by (simp add: power_int_minus inverse_eq_divide)
  with a1 have lo: "\<not> a < 2 powi (- 1022)" by simp
  have "a < 2 ^ 53" using assms(2) unfolding a_def
    by (metis of_int_less_iff of_int_numeral of_int_power)
  then have "a < 2 powi (52 + 1)" by simp
  from powi_exp_less [OF floor_log2_le [OF a] this] have e: "e \<le> 52" by (simp add: e_def)
  have u: "ulp a = 2 powi (e - 52)" using lo by (simp add: ulp_def e_def)
  have "a / ulp a = a * 2 powi (52 - e)"
    unfolding u by (simp add: power_int_diff)
  also have "\<dots> = of_int (n * 2 ^ nat (52 - e))"
    using e by (simp add: a_def powi_nonneg_eq)
  finally have q: "a / ulp a = of_int (n * 2 ^ nat (52 - e))" .
  have "of_int (round_half_even (a / ulp a)) * ulp a = a / ulp a * ulp a"
    unfolding q round_half_even_of_int ..
  also have "\<dots> = a" by (simp add: u)
  finally have r: "of_int (round_half_even (a / ulp a)) * ulp a = a" .
  have "a < 2 ^ 1024"
  proof -
    have "(2::rat) ^ 53 \<le> 2 ^ 1024" by (rule power_increasing) simp_all
    with \<open>a < 2 ^ 53\<close> show ?thesis by linarith
  qed
  then show ?thesis
    using a unfolding round_double_def Let_def
    by (simp add: a_def [symmetric] r)
qed

lemma round_double_eqI:
  assumes e: "2 powi e \<le> x" "x < 2 powi (e + 1)" "- 1022 \<le> e"
    and m: "\<bar>x / 2 powi (e - 52) - of_int m\<bar> < 1 / 2"
    and r: "(of_int m :: rat) * 2 powi (e - 52) < 2 ^ 1024"
  shows "round_double x = Fin (of_int m * 2 powi (e - 52))"
proof -
  have "(0::rat) < 2 powi e" by simp
  with e(1) have x: "0 < x" by linarith
  have fl: "floor_log2 x = e" using e(1,2) by (rule floor_log2_eqI)
  have "(2::rat) powi (- 1022) \<le> 2 powi e"
    using e(3) by (intro power_int_increasing) simp_all
  with e(1) have "\<not> x < 2 powi (- 1022)" by linarith
  then have u: "ulp x = 2 powi (e - 52)" by (simp add: ulp_def fl)
  have "round_half_even (x / 2 powi (e - 52)) = m"
    using m by (rule round_half_even_eqI)
  then show ?thesis
    using x r unfolding round_double_def Let_def by (simp add: u)
qed

section \<open>Rounding to one decimal place\<close>

lemma floor_half_close:
  fixes y :: rat
  shows "- (1 / 2) \<le> of_int \<lfloor>y + 1 / 2\<rfloor> - y \<and> of_int \<lfloor>y + 1 / 2\<rfloor> - y \<le> 1 / 2"
proof -
  have "of_int \<lfloor>y + 1 / 2\<rfloor> \<le> y + 1 / 2" "y + 1 / 2 < of_int \<lfloor>y + 1 / 2\<rfloor> + 1"
    by linarith+
  then show ?thesis by linarith
qed

lemma toFixed1_n_close: "\<bar>of_int (toFixed1_n x) - x * 10\<bar> \<le> (1 / 2 :: rat)"
proof (cases "x < 0")
  case True
  from floor_half_close [of "- x * 10"] True show ?thesis
    unfolding toFixed1_n_def abs_le_iff by simp
next
  case False
  from floor_half_close [of "x * 10"] False show ?thesis
    unfolding toFixed1_n_def abs_le_iff by simp
qed

lemma toFixed1_n_nonneg: "0 \<le> x \<Longrightarrow> 0 \<le> toFixed1_n x"
  by (simp add: toFixed1_n_def)

lemma toFixed1_rounds:
  assumes "\<bar>x\<bar> < 10 ^ 21"
  shows "percentage_tenths (toFixed1 (Fin x)) = Some (toFixed1_n x)
         \<and> \<bar>of_int (toFixed1_n x) / 10 - x\<bar> \<le> 1 / 20"
proof -
  have "\<bar>of_int (toFixed1_n x) / 10 - x\<bar> \<le> 1 / 20"
    using toFixed1_n_close [of x] by (simp add: abs_le_iff field_simps)
  moreover have "x < 0 \<Longrightarrow> toFixed1_n x \<le> 0"
    by (simp add: toFixed1_n_def)
  moreover have "\<not> x < 0 \<Longrightarrow> 0 \<le> toFixed1_n x"
    by (simp add: toFixed1_n_def)
  ultimately show ?thesis
    using assms by (auto simp add: toFixed1_def percentage_tenths_def)
qed

text \<open>
  A double within \<open>300 / 2 ^ 53\<close> of the exact percentage of a total of at most \<open>2 ^ 40\<close>
  rounds to a tenth that is within 0.05 of the exact percentage: the next candidate is
  further away by at least \<open>1 / (2 * total)\<close>.
\<close>

lemma nearest_tenth_of_quotient:
  fixes v t :: int and x :: rat
  assumes t: "0 < t" "t \<le> 2 ^ 40"
    and err: "\<bar>x - 100 * of_int v / of_int t\<bar> \<le> 300 / 2 ^ 53"
  shows "\<bar>of_int (toFixed1_n x) - 1000 * of_int v / of_int t\<bar> \<le> (1 / 2 :: rat)"
proof -
  define n where "n = toFixed1_n x"
  define k where "k = \<bar>2 * n * t - 2000 * v\<bar>"
  define T :: rat where "T = of_int t"
  define w :: rat where "w = of_int v / T"
  define \<delta> :: rat where "\<delta> = 300 / 2 ^ 53"
  have T0: "0 < T" using t(1) by (simp add: T_def)
  have TB: "T \<le> 2 ^ 40"
    using t(2) unfolding T_def by (metis of_int_le_iff of_int_numeral of_int_power)
  have \<delta>0: "0 \<le> \<delta>" by (simp add: \<delta>_def)
  have err': "\<bar>x - 100 * w\<bar> \<le> \<delta>"
    using err by (simp add: w_def T_def \<delta>_def)
  have "of_int n - 1000 * w = of_int (2 * n * t - 2000 * v) / (2 * T)"
    using T0 by (simp add: w_def T_def field_simps)
  then have "\<bar>of_int n - 1000 * w\<bar> = \<bar>of_int (2 * n * t - 2000 * v) :: rat\<bar> / \<bar>2 * T\<bar>"
    by (simp only: abs_divide)
  then have dist: "\<bar>of_int n - 1000 * w\<bar> = of_int k / (2 * T)"
    using T0 by (simp add: k_def)
  have "\<bar>of_int n - x * 10\<bar> \<le> (1 / 2 :: rat)"
    unfolding n_def by (rule toFixed1_n_close)
  with err' have "\<bar>of_int n - 1000 * w\<bar> \<le> 1 / 2 + 10 * \<delta>"
    by linarith
  then have "of_int k / (2 * T) \<le> 1 / 2 + 10 * \<delta>"
    unfolding dist .
  then have "of_int k \<le> (1 / 2 + 10 * \<delta>) * (2 * T)"
    using T0 by (simp add: pos_divide_le_eq)
  also have "\<dots> = T + 20 * \<delta> * T" by (simp add: algebra_simps)
  also have "20 * \<delta> * T \<le> 20 * \<delta> * 2 ^ 40"
    using TB \<delta>0 by (intro mult_left_mono) simp_all
  also have "20 * \<delta> * 2 ^ 40 < 1" by (simp add: \<delta>_def)
  finally have "(of_int k :: rat) < of_int (t + 1)" by (simp add: T_def)
  then have "k < t + 1" by (simp only: of_int_less_iff)
  then have "(of_int k :: rat) \<le> T" by (simp add: T_def)
  then have "of_int k / (2 * T) \<le> 1 / 2"
    using T0 by (simp add: pos_divide_le_eq)
  then have "\<bar>of_int n - 1000 * w\<bar> \<le> 1 / 2"
    unfolding dist .
  then show ?thesis
    by (simp add: n_def w_def T_def)
qed

lemma rounded_sum_3:
  fixes a b c :: int and xa xb xc :: rat
  assumes t: "0 < a + b + c"
    and ea: "\<bar>xa - 100 * of_int a / of_int (a + b + c)\<bar> \<le> 300 / 2 ^ 53"
    and eb: "\<bar>xb - 100 * of_int b / of_int (a + b + c)\<bar> \<le> 300 / 2 ^ 53"
    and ec: "\<bar>xc - 100 * of_int c / of_int (a + b + c)\<bar> \<le> 300 / 2 ^ 53"
  shows "\<bar>toFixed1_n xa + toFixed1_n xb + toFixed1_n xc - 1000\<bar> \<le> 1"
proof -
  define T :: rat where "T = of_int (a + b + c)"
  define wa wb wc where "wa = of_int a / T" and "wb = of_int b / T" and "wc = of_int c / T"
  define \<delta> :: rat where "\<delta> = 300 / 2 ^ 53"
  define pa pb pc where "pa = toFixed1_n xa" and "pb = toFixed1_n xb" and "pc = toFixed1_n xc"
  have T0: "0 < T" using t by (simp add: T_def)
  have \<delta>s: "\<delta> \<le> 1 / 1000" by (simp add: \<delta>_def)
  have "wa + wb + wc = (of_int a + of_int b + of_int c) / T"
    by (simp add: wa_def wb_def wc_def add_divide_distrib)
  also have "\<dots> = 1" using T0 by (simp add: T_def)
  finally have exact: "wa + wb + wc = 1" .
  have "\<bar>xa - 100 * wa\<bar> \<le> \<delta>" "\<bar>xb - 100 * wb\<bar> \<le> \<delta>" "\<bar>xc - 100 * wc\<bar> \<le> \<delta>"
    using ea eb ec by (simp_all add: wa_def wb_def wc_def T_def \<delta>_def)
  moreover have "\<bar>of_int pa - xa * 10\<bar> \<le> (1 / 2 :: rat)"
    "\<bar>of_int pb - xb * 10\<bar> \<le> (1 / 2 :: rat)" "\<bar>of_int pc - xc * 10\<bar> \<le> (1 / 2 :: rat)"
    unfolding pa_def pb_def pc_def by (rule toFixed1_n_close)+
  ultimately have "\<bar>of_int pa + of_int pb + of_int pc - (1000 :: rat)\<bar> < 2"
    using exact \<delta>s by linarith
  then have "\<bar>of_int (pa + pb + pc - 1000) :: rat\<bar> < of_int 2"
    by simp
  then have "\<bar>pa + pb + pc - 1000\<bar> < 2"
    by (simp only: of_int_abs [symmetric] of_int_less_iff)
  then show ?thesis
    unfolding pa_def pb_def pc_def by linarith
qed

lemma toFixed1_n_third:
  assumes "\<bar>x - 100 * of_int 1 / of_int 3\<bar> \<le> 300 / 2 ^ 53"
  shows "toFixed1_n x = 333"
proof -
  have "(300 / 2 ^ 53 :: rat) \<le> 1 / 1000" by simp
  with assms have "\<bar>x - 100 * of_int 1 / of_int 3\<bar> \<le> 1 / 1000"
    by (rule order_trans)
  then have "\<bar>x - 100 / 3\<bar> \<le> 1 / 1000" by simp
  then have "33 + 3 / 10 \<le> x" "x \<le> 33 + 34 / 100"
    by linarith+
  then have "\<lfloor>x * 10 + 1 / 2\<rfloor> = 333" "\<not> x < 0"
    by (simp_all add: floor_eq_iff)
  then show ?thesis by (simp add: toFixed1_n_def)
qed

section \<open>The arithmetic of the tooltip\<close>

text \<open>Counts below \<open>2 ^ 53\<close> and their sums are exact.\<close>

lemma num_of_int_exact: "0 \<le> n \<Longrightarrow> n < 2 ^ 53 \<Longrightarrow> num_of_int n = Fin (of_int n)"
  by (simp add: num_of_int_def round_double_exact)

lemma foldl_js_add_exact:
  assumes "0 \<le> s" "list_all (\<lambda>x. 0 \<le> x) ds" "s + sum_list ds < 2 ^ 53"
  shows "foldl (\<lambda>a b. js_add a b) (Fin (of_int s)) (map num_of_int ds)
         = Fin (of_int (s + sum_list ds))"
  using assms
proof (induction ds arbitrary: s)
  case Nil
  then show ?case by simp
next
  case (Cons x xs)
  from Cons.prems have x: "0 \<le> x" and xs: "list_all (\<lambda>x. 0 \<le> x) xs"
    by simp_all
  have nn: "0 \<le> sum_list xs" using xs by (induction xs) simp_all
  from Cons.prems(3) nn x Cons.prems(1) have "x < 2 ^ 53" "s + x < 2 ^ 53"
    by simp_all
  with x Cons.prems(1)
  have step: "js_add (Fin (of_int s)) (num_of_int x) = Fin (of_int (s + x))"
    using round_double_exact [of "s + x"] by (simp add: num_of_int_exact)
  have "foldl (\<lambda>a b. js_add a b) (Fin (of_int (s + x))) (map num_of_int xs)
        = Fin (of_int (s + x + sum_list xs))"
    using Cons.prems x xs by (intro Cons.IH) (simp_all add: add.assoc)
  then show ?case
    by (simp add: step add.assoc)
qed

lemma dataset_total_exact:
  assumes "list_all (\<lambda>x. 0 \<le> x) ds" "sum_list ds < 2 ^ 53"
  shows "dataset_total ds = Fin (of_int (sum_list ds))"
  using foldl_js_add_exact [of 0 ds] assms by (simp add: dataset_total_def)

text \<open>
  The quotient and the product are rounded once each: the double \<^verbatim>\<open>value / total * 100\<close>
  is within \<open>300 / 2 ^ 53\<close> of the exact percentage.
\<close>

lemma percent_double:
  assumes v: "0 \<le> v" "v \<le> t" and t: "0 < t" "t < 2 ^ 53"
  shows "\<exists>x. js_mul (js_div (Fin (of_int v)) (Fin (of_int t))) (Fin 100) = Fin x
             \<and> 0 \<le> x \<and> x \<le> 200
             \<and> \<bar>x - 100 * of_int v / of_int t\<bar> \<le> 300 / 2 ^ 53"
proof (cases "v = 0")
  case True
  then show ?thesis using t by (simp add: round_double_zero)
next
  case False
  define q :: rat where "q = of_int v / of_int t"
  have tr: "(0::rat) < of_int t" "(of_int t :: rat) < 2 ^ 53"
    using t by (simp, metis of_int_less_iff of_int_numeral of_int_power)
  have vr: "(1::rat) \<le> of_int v" "(of_int v :: rat) \<le> of_int t"
    using v False by simp_all
  have q1: "q \<le> 1" unfolding q_def using tr vr by (simp add: field_simps)
  have "1 / 2 ^ 53 < 1 / (of_int t :: rat)"
    using tr by (simp add: field_simps)
  also have "\<dots> \<le> q" unfolding q_def using tr vr by (simp add: divide_right_mono)
  finally have q0: "1 / 2 ^ 53 < q" .
  have small: "(2::rat) powi (- 1022) \<le> 1 / 2 ^ 53"
    by (simp add: power_int_minus inverse_eq_divide)
  have big: "(200::rat) \<le> 2 ^ 1023"
    by simp
  have "2 powi (- 1022) \<le> \<bar>q\<bar>" "\<bar>q\<bar> \<le> 2 ^ 1023"
    using q0 q1 small big by simp_all
  from round_double_close [OF this] obtain q' where
    q': "round_double q = Fin q'" "\<bar>q' - q\<bar> \<le> \<bar>q\<bar> / 2 ^ 53"
    by blast
  define u :: rat where "u = 1 / 2 ^ 53"
  have u0: "0 < u" and us: "u \<le> 1 / 1000" by (simp_all add: u_def)
  have qa: "\<bar>q\<bar> = q" using q0 by simp
  have q00: "0 < q" using q0 u0 unfolding u_def by linarith
  have qu: "q * u \<le> u" using q1 u0 by (simp add: mult_left_le_one_le)
  have d1: "\<bar>q' - q\<bar> \<le> q * u" using q'(2) unfolding qa u_def by simp
  with qu have e1: "\<bar>q' - q\<bar> \<le> u" by linarith
  have "q * u \<le> q / 2" using q00 us by (simp add: field_simps)
  with d1 have q'lo: "q / 2 \<le> q'" by linarith
  define y where "y = q' * 100"
  have y0: "50 * u \<le> y" using q'lo q0 unfolding y_def u_def by linarith
  have y1: "y \<le> 101" using e1 q1 us unfolding y_def by linarith
  have "2 powi (- 1022) \<le> \<bar>y\<bar>" "\<bar>y\<bar> \<le> 2 ^ 1023"
    using y0 y1 small big u0 unfolding u_def by linarith+
  from round_double_close [OF this] obtain x where
    x: "round_double y = Fin x" "\<bar>x - y\<bar> \<le> \<bar>y\<bar> / 2 ^ 53"
    by blast
  have yp: "0 < y" using y0 u0 by linarith
  then have ya: "\<bar>y\<bar> = y" by simp
  have d2: "\<bar>x - y\<bar> \<le> y * u" using x(2) unfolding ya u_def by simp
  have "y * u \<le> 200 * u" using y1 u0 by simp
  with d2 have e2: "\<bar>x - y\<bar> \<le> 200 * u" by linarith
  have "\<bar>y - 100 * q\<bar> \<le> 100 * u"
    using e1 unfolding y_def by linarith
  with e2 have "\<bar>x - 100 * q\<bar> \<le> 300 * u" by linarith
  then have err: "\<bar>x - 100 * q\<bar> \<le> 300 / 2 ^ 53" by (simp add: u_def)
  have "y * u \<le> y" using yp us by (simp add: mult_left_le)
  with d2 yp have x0: "0 \<le> x" by linarith
  have x1: "x \<le> 200" using e2 y1 us by linarith
  have "js_mul (js_div (Fin (of_int v)) (Fin (of_int t))) (Fin 100) = Fin x"
    using t q'(1) x(1) by (simp add: q_def [symmetric] y_def [symmetric])
  with x0 x1 err show ?thesis
    by (auto simp add: q_def)
qed

lemma tooltip_percentage_counts:
  assumes ds: "list_all (\<lambda>x. 0 \<le> x) (ctx_data c)"
    and v: "0 \<le> ctx_parsed c" "ctx_parsed c \<le> sum_list (ctx_data c)"
    and t: "0 < sum_list (ctx_data c)" "sum_list (ctx_data c) < 2 ^ 53"
  shows "\<exists>x. tooltip_percentage c
               = (Fixed1 False (nat (toFixed1_n x)), [Fin (of_int (sum_list (ctx_data c)))])
             \<and> 0 \<le> x
             \<and> \<bar>x - 100 * of_int (ctx_parsed c) / of_int (sum_list (ctx_data c))\<bar>
                 \<le> 300 / 2 ^ 53"
proof -
  have tot: "dataset_total (ctx_data c) = Fin (of_int (sum_list (ctx_data c)))"
    using ds t(2) by (rule dataset_total_exact)
  from v t have "ctx_parsed c < 2 ^ 53" by simp
  with v(1) have val: "num_of_int (ctx_parsed c) = Fin (of_int (ctx_parsed c))"
    by (rule num_of_int_exact)
  from percent_double [OF v t] obtain x where
    x: "js_mul (js_div (Fin (of_int (ctx_parsed c))) (Fin (of_int (sum_list (ctx_data c)))))
          (Fin 100) = Fin x"
    and x0: "0 \<le> x" and x1: "x \<le> 200"
    and err: "\<bar>x - 100 * of_int (ctx_parsed c) / of_int (sum_list (ctx_data c))\<bar>
              \<le> 300 / 2 ^ 53"
    by blast
  have "(200::rat) < 10 ^ 21" by simp
  with x0 x1 have "\<bar>x\<bar> < 10 ^ 21" by linarith
  with x0 have fx: "toFixed1 (Fin x) = Fixed1 False (nat (toFixed1_n x))"
    using toFixed1_n_nonneg [OF x0] by (simp add: toFixed1_def)
  have "tooltip_percentage c
        = (Fixed1 False (nat (toFixed1_n x)), [Fin (of_int (sum_list (ctx_data c)))])"
    unfolding tooltip_percentage_def Let_def tot val js_div_traced_def
    using t(1) x fx by simp
  with x0 err show ?thesis by blast
qed

lemma tooltip_percentage_zero_total:
  assumes "list_all (\<lambda>x. 0 \<le> x) (ctx_data c)" "sum_list (ctx_data c) = 0"
  shows "tooltip_percentage c = (Zero, [])"
proof -
  have "dataset_total (ctx_data c) = Fin (of_int (sum_list (ctx_data c)))"
    using assms by (intro dataset_total_exact) simp_all
  then show ?thesis
    using assms(2) by (simp add: tooltip_percentage_def)
qed

lemma tooltip_percentage_trace: "Fin 0 \<notin> set (snd (tooltip_percentage c))"
  by (cases "dataset_total (ctx_data c) = Fin 0")
    (simp_all add: tooltip_percentage_def Let_def js_div_traced_def)

lemma tooltip_percentage_third:
  assumes "ctx_parsed c = 1" "ctx_data c = [1, 1, 1]"
  shows "tooltip_percentage c = (Fixed1 False 333, [Fin 3])"
proof -
  from tooltip_percentage_counts [of c] assms obtain x where
    "tooltip_percentage c = (Fixed1 False (nat (toFixed1_n x)), [Fin 3])"
    "\<bar>x - 100 * of_int 1 / of_int 3\<bar> \<le> 300 / 2 ^ 53"
    by auto
  then show ?thesis by (simp add: toFixed1_n_third)
qed

text \<open>
  The slice 23 of 23, 57, 0: the quotient \<open>23 / 80\<close> rounds down to a double, the product
  with 100 rounds to a double just below 28.75, and \<^verbatim>\<open>toFixed(1)\<close> prints 28.7.
\<close>

lemma quotient_23_80: "js_div (Fin 23) (Fin 80) = Fin (5179139571476070 / 2 ^ 54)"
proof -
  have "round_double (23 / 80) = Fin (of_int 5179139571476070 * 2 powi (- 2 - 52))"
    by (rule round_double_eqI) (simp_all add: power_int_minus)
  then show ?thesis by (simp add: power_int_minus)
qed

lemma percent_23_80:
  "js_mul (Fin (5179139571476070 / 2 ^ 54)) (Fin 100) = Fin (8092405580431359 / 2 ^ 48)"
proof -
  have "round_double (5179139571476070 / 2 ^ 54 * 100)
        = Fin (of_int 8092405580431359 * 2 powi (4 - 52))"
    by (rule round_double_eqI) (simp_all add: power_int_minus)
  then show ?thesis by (simp add: power_int_minus)
qed

lemma toFixed1_n_23_80: "toFixed1_n (8092405580431359 / 2 ^ 48) = 287"
proof -
  have "\<lfloor>(8092405580431359 / 2 ^ 48 :: rat) * 10 + 1 / 2\<rfloor> = 287"
    by (rule floor_unique) simp_all
  then show ?thesis by (simp add: toFixed1_n_def)
qed

lemma tooltip_percentage_tie: "tooltip_percentage tie_context = (Fixed1 False 287, [Fin 80])"
proof -
  have tot: "dataset_total [23, 57, 0] = Fin 80"
    using dataset_total_exact [of "[23, 57, 0]"] by simp
  have val: "num_of_int 23 = Fin 23"
    using num_of_int_exact [of 23] by simp
  have fx: "toFixed1 (Fin (8092405580431359 / 2 ^ 48)) = Fixed1 False 287"
    by (simp only: toFixed1_def jsnum.case toFixed1_n_23_80) simp
  have "tooltip_percentage tie_context
        = (case js_div_traced (Fin 23) (Fin 80) [] of
             (q, tr) \<Rightarrow> (toFixed1 (js_mul q (Fin 100)), tr))"
    by (simp add: tooltip_percentage_def tie_context_def tot val
        del: js_div.simps js_mul.simps)
  also have "\<dots> = (toFixed1 (js_mul (Fin (5179139571476070 / 2 ^ 54)) (Fin 100)), [Fin 80])"
    by (simp only: js_div_traced_def quotient_23_80 prod.case append_Nil)
  also have "\<dots> = (Fixed1 False 287, [Fin 80])"
    by (simp only: percent_23_80 fx)
  finally show ?thesis .
qed

text \<open>The strings the callback returns for two of the examples.\<close>

lemma tooltip_label_third:
  "tooltip_label ToString third_context
   = ''High Risk: '' @ ToString (Fin 1) @ '' patients (33.3%)''"
proof -
  have p: "tooltip_percentage third_context = (Fixed1 False 333, [Fin 3])"
    by (rule tooltip_percentage_third) (simp_all add: third_context_def)
  have v: "num_of_int (ctx_parsed third_context) = Fin 1"
    using num_of_int_exact [of 1] by (simp add: third_context_def)
  have d: "digits 33 = ''33''" "digits 3 = ''3''"
    by (simp_all add: digits.simps)
  show ?thesis
    unfolding tooltip_label_def Let_def p v
    by (simp add: percentage_string_def third_context_def d)
qed

lemma tooltip_label_tie:
  "tooltip_label ToString tie_context
   = ''Low Risk: '' @ ToString (Fin 23) @ '' patients (28.7%)''"
proof -
  have v: "num_of_int (ctx_parsed tie_context) = Fin 23"
    using num_of_int_exact [of 23] by (simp add: tie_context_def)
  have d: "digits 28 = ''28''" "digits 7 = ''7''"
    by (simp_all add: digits.simps)
  show ?thesis
    unfolding tooltip_label_def Let_def tooltip_percentage_tie v
    by (simp add: percentage_string_def tie_context_def d)
qed

section \<open>The chart renderers\<close>

lemma risk_chart_drawn:
  assumes "getElementById pg ''riskDistributionChart'' = Some ctx"
  shows "initializeRiskDistributionChart (Object d) pg =
           (Inr (), new_Chart \<lparr>canvas = ctx, kind = Doughnut,
              chart_labels = [''Low Risk'', ''Moderate Risk'', ''High Risk''],
              dataset_data = [num_or (d ''low_risk'') 0, num_or (d ''moderate_risk'') 0,
                              num_or (d ''high_risk'') 0]\<rparr> pg)"
  using assms
  by (simp add: initializeRiskDistributionChart_def risk_dataset_def get_prop_def)

lemma drawn_new_Chart: "drawn (r, new_Chart c pg) = c"
  by (simp add: drawn_def new_Chart_def)

lemma drawn_thirds:
  "dataset_data (drawn (initializeRiskDistributionChart (Object thirds) canvas_page)) = [1, 1, 1]"
  by (simp add: drawn_def initializeRiskDistributionChart_def getElementById_def canvas_page_def
      risk_dataset_def get_prop_def thirds_def num_or_def new_Chart_def)

lemma drawn_no_risk:
  "dataset_data (drawn (initializeRiskDistributionChart (Object no_risk) canvas_page)) = [0, 0, 0]"
  by (simp add: drawn_def initializeRiskDistributionChart_def getElementById_def canvas_page_def
      risk_dataset_def get_prop_def no_risk_def num_or_def new_Chart_def)

lemma slice_percentages_3:
  assumes "dataset_data ch = [a, b, c]"
  shows "slice_percentages ch
         = [fst (tooltip_percentage (slice_context ch 0)),
            fst (tooltip_percentage (slice_context ch 1)),
            fst (tooltip_percentage (slice_context ch 2))]
         \<and> ctx_parsed (slice_context ch 0) = a \<and> ctx_parsed (slice_context ch 1) = b
         \<and> ctx_parsed (slice_context ch 2) = c
         \<and> ctx_data (slice_context ch 0) = [a, b, c] \<and> ctx_data (slice_context ch 1) = [a, b, c]
         \<and> ctx_data (slice_context ch 2) = [a, b, c]"
proof -
  have u: "[0..<3] = [0, 1, 2]" by (simp add: upt_rec)
  have l: "length [a, b, c] = 3" by simp
  show ?thesis
    unfolding slice_percentages_def assms l u
    by (simp add: slice_context_def assms)
qed

lemma slice_percentages_thirds:
  "slice_percentages (drawn (initializeRiskDistributionChart (Object thirds) canvas_page))
   = [Fixed1 False 333, Fixed1 False 333, Fixed1 False 333]"
proof -
  let ?ch = "drawn (initializeRiskDistributionChart (Object thirds) canvas_page)"
  note s = slice_percentages_3 [OF drawn_thirds]
  have "fst (tooltip_percentage (slice_context ?ch 0)) = Fixed1 False 333"
    "fst (tooltip_percentage (slice_context ?ch 1)) = Fixed1 False 333"
    "fst (tooltip_percentage (slice_context ?ch 2)) = Fixed1 False 333"
    using s by (simp_all add: tooltip_percentage_third)
  with s show ?thesis by (simp only:)
qed

text \<open>
  C1, as stated, fails: for the risk distribution
  \<^verbatim>\<open>{low_risk: 1, moderate_risk: 1, high_risk: 1}\<close> the total is 3, each slice's tooltip
  shows 33.3 (333 tenths), and the three percentages sum to 99.9, not to 100.
\<close>

theorem risk_percentages_thirds_not_100:
  "dataset_total (dataset_data
     (drawn (initializeRiskDistributionChart (Object thirds) canvas_page))) = Fin 3
   \<and> slice_percentages (drawn (initializeRiskDistributionChart (Object thirds) canvas_page))
       = [Fixed1 False 333, Fixed1 False 333, Fixed1 False 333]
   \<and> sum_tenths (slice_percentages
       (drawn (initializeRiskDistributionChart (Object thirds) canvas_page))) = Some 999
   \<and> sum_tenths (slice_percentages
       (drawn (initializeRiskDistributionChart (Object thirds) canvas_page))) \<noteq> Some 1000"
proof -
  have "dataset_total (dataset_data
          (drawn (initializeRiskDistributionChart (Object thirds) canvas_page))) = Fin 3"
    unfolding drawn_thirds using dataset_total_exact [of "[1, 1, 1]"] by simp
  then show ?thesis
    by (simp add: slice_percentages_thirds percentage_tenths_def)
qed

text \<open>
  C1, amended: when the canvas is present, the doughnut chart's dataset holds the three
  values of the risk distribution, a missing key taken as 0. For values that are not
  negative and whose total is below \<open>2 ^ 53\<close> (so that every count and the total are
  exact as JavaScript numbers): when the total is strictly greater than 0, each of the
  three tooltip percentages is a decimal numeral with one decimal place, and they sum to
  99.9, 100.0 or 100.1 (the sum in tenths differs from 1000 by at most 1); when the total
  is 0, every percentage is the number 0.
\<close>

theorem risk_tooltip_percentages:
  assumes "getElementById pg ''riskDistributionChart'' \<noteq> None"
    and "list_all (\<lambda>x. 0 \<le> x)
           (dataset_data (drawn (initializeRiskDistributionChart (Object d) pg)))"
    and "sum_list (dataset_data (drawn (initializeRiskDistributionChart (Object d) pg))) < 2 ^ 53"
  shows "dataset_data (drawn (initializeRiskDistributionChart (Object d) pg)) =
           [num_or (d ''low_risk'') 0, num_or (d ''moderate_risk'') 0, num_or (d ''high_risk'') 0]
         \<and> dataset_total (dataset_data (drawn (initializeRiskDistributionChart (Object d) pg)))
             = Fin (of_int (sum_list
                 (dataset_data (drawn (initializeRiskDistributionChart (Object d) pg)))))
         \<and> (0 < sum_list (dataset_data (drawn (initializeRiskDistributionChart (Object d) pg)))
              \<longrightarrow> (\<exists>n. sum_tenths (slice_percentages
                            (drawn (initializeRiskDistributionChart (Object d) pg))) = Some n
                       \<and> \<bar>n - 1000\<bar> \<le> 1))
         \<and> (sum_list (dataset_data (drawn (initializeRiskDistributionChart (Object d) pg))) = 0
              \<longrightarrow> slice_percentages (drawn (initializeRiskDistributionChart (Object d) pg))
                    = [Zero, Zero, Zero])"
proof -
  from assms(1) obtain ctx where c: "getElementById pg ''riskDistributionChart'' = Some ctx"
    by auto
  define a b c where "a = num_or (d ''low_risk'') 0" and "b = num_or (d ''moderate_risk'') 0"
    and "c = num_or (d ''high_risk'') 0"
  define ch where "ch = drawn (initializeRiskDistributionChart (Object d) pg)"
  have ds: "dataset_data ch = [a, b, c]"
    unfolding ch_def risk_chart_drawn [OF c] drawn_new_Chart a_def b_def c_def by simp
  from assms(2,3) have nn: "list_all (\<lambda>x. 0 \<le> x) [a, b, c]" and lt: "a + b + c < 2 ^ 53"
    unfolding ch_def [symmetric] ds by simp_all
  from nn have abc: "0 \<le> a" "0 \<le> b" "0 \<le> c" by simp_all
  have sm: "sum_list (dataset_data ch) = a + b + c" by (simp add: ds)
  have lt': "sum_list [a, b, c] < 2 ^ 53" using lt by simp
  note s = slice_percentages_3 [OF ds]
  have tot: "dataset_total (dataset_data ch) = Fin (of_int (sum_list (dataset_data ch)))"
    unfolding ds using nn lt' by (rule dataset_total_exact)
  have pos: "\<exists>n. sum_tenths (slice_percentages ch) = Some n \<and> \<bar>n - 1000\<bar> \<le> 1"
    if t: "0 < a + b + c"
  proof -
    have each: "\<exists>x. fst (tooltip_percentage (slice_context ch i)) = Fixed1 False (nat (toFixed1_n x))
                  \<and> 0 \<le> x \<and> \<bar>x - 100 * of_int v / of_int (a + b + c)\<bar> \<le> 300 / 2 ^ 53"
      if "ctx_parsed (slice_context ch i) = v" "ctx_data (slice_context ch i) = [a, b, c]"
        "0 \<le> v" "v \<le> a + b + c" for i v
    proof -
      have sl3: "sum_list [a, b, c] = a + b + c" by simp
      have 1: "list_all (\<lambda>x. 0 \<le> x) (ctx_data (slice_context ch i))"
        using that(2) nn by simp
      have 2: "0 \<le> ctx_parsed (slice_context ch i)"
        "ctx_parsed (slice_context ch i) \<le> sum_list (ctx_data (slice_context ch i))"
        "0 < sum_list (ctx_data (slice_context ch i))"
        "sum_list (ctx_data (slice_context ch i)) < 2 ^ 53"
        unfolding that(1,2) sl3 using that(3,4) t lt by simp_all
      from tooltip_percentage_counts [OF 1 2] obtain x where
        "tooltip_percentage (slice_context ch i)
           = (Fixed1 False (nat (toFixed1_n x)),
              [Fin (of_int (sum_list (ctx_data (slice_context ch i))))])"
        "0 \<le> x"
        "\<bar>x - 100 * of_int (ctx_parsed (slice_context ch i))
                / of_int (sum_list (ctx_data (slice_context ch i)))\<bar> \<le> 300 / 2 ^ 53"
        by blast
      then have "fst (tooltip_percentage (slice_context ch i)) = Fixed1 False (nat (toFixed1_n x))"
        "0 \<le> x" "\<bar>x - 100 * of_int v / of_int (a + b + c)\<bar> \<le> 300 / 2 ^ 53"
        unfolding that(1,2) sl3 by simp_all
      then show ?thesis by blast
    qed
    from each [of 0 a] s abc obtain xa where
      xa: "fst (tooltip_percentage (slice_context ch 0)) = Fixed1 False (nat (toFixed1_n xa))"
        "0 \<le> xa" "\<bar>xa - 100 * of_int a / of_int (a + b + c)\<bar> \<le> 300 / 2 ^ 53"
      by auto
    from each [of 1 b] s abc obtain xb where
      xb: "fst (tooltip_percentage (slice_context ch 1)) = Fixed1 False (nat (toFixed1_n xb))"
        "0 \<le> xb" "\<bar>xb - 100 * of_int b / of_int (a + b + c)\<bar> \<le> 300 / 2 ^ 53"
      by auto
    from each [of 2 c] s abc obtain xc where
      xc: "fst (tooltip_percentage (slice_context ch 2)) = Fixed1 False (nat (toFixed1_n xc))"
        "0 \<le> xc" "\<bar>xc - 100 * of_int c / of_int (a + b + c)\<bar> \<le> 300 / 2 ^ 53"
      by auto
    have sl: "slice_percentages ch
              = [Fixed1 False (nat (toFixed1_n xa)), Fixed1 False (nat (toFixed1_n xb)),
                 Fixed1 False (nat (toFixed1_n xc))]"
      using s xa(1) xb(1) xc(1) by (simp only:)
    have "sum_tenths (slice_percentages ch)
          = Some (toFixed1_n xa + toFixed1_n xb + toFixed1_n xc)"
      unfolding sl
      using toFixed1_n_nonneg [OF xa(2)] toFixed1_n_nonneg [OF xb(2)] toFixed1_n_nonneg [OF xc(2)]
      by (simp add: percentage_tenths_def)
    with rounded_sum_3 [OF t xa(3) xb(3) xc(3)] show ?thesis by blast
  qed
  have zero: "slice_percentages ch = [Zero, Zero, Zero]" if "a + b + c = 0"
  proof -
    have "tooltip_percentage (slice_context ch i) = (Zero, [])"
      if "ctx_data (slice_context ch i) = [a, b, c]" for i
      using tooltip_percentage_zero_total [of "slice_context ch i"] that nn \<open>a + b + c = 0\<close>
      by simp
    with s show ?thesis by simp
  qed
  have pos': "\<exists>n. sum_tenths (slice_percentages ch) = Some n \<and> \<bar>n - 1000\<bar> \<le> 1"
    if "0 < sum_list (dataset_data ch)"
    using that pos by (simp only: sm)
  have zero': "slice_percentages ch = [Zero, Zero, Zero]" if "sum_list (dataset_data ch) = 0"
    using that zero by (simp only: sm)
  from ds tot pos' zero' show ?thesis
    unfolding ch_def a_def b_def c_def by blast
qed

theorem risk_tooltip_percentages_witness:
  "getElementById canvas_page ''riskDistributionChart'' \<noteq> None
   \<and> list_all (\<lambda>x. 0 \<le> x)
        (dataset_data (drawn (initializeRiskDistributionChart (Object thirds) canvas_page)))
   \<and> sum_list (dataset_data
        (drawn (initializeRiskDistributionChart (Object thirds) canvas_page))) = 3
   \<and> sum_tenths (slice_percentages
        (drawn (initializeRiskDistributionChart (Object thirds) canvas_page))) = Some 999
   \<and> \<bar>999 - 1000\<bar> \<le> (1 :: int)
   \<and> sum_list (dataset_data
        (drawn (initializeRiskDistributionChart (Object no_risk) canvas_page))) = 0
   \<and> slice_percentages (drawn (initializeRiskDistributionChart (Object no_risk) canvas_page))
        = [Zero, Zero, Zero]"
proof -
  have p: "getElementById canvas_page ''riskDistributionChart'' \<noteq> None"
    by (simp add: getElementById_def canvas_page_def)
  have t: "list_all (\<lambda>x. 0 \<le> x)
             (dataset_data (drawn (initializeRiskDistributionChart (Object thirds) canvas_page)))"
    "sum_list (dataset_data
       (drawn (initializeRiskDistributionChart (Object thirds) canvas_page))) < 2 ^ 53"
    "sum_list (dataset_data
       (drawn (initializeRiskDistributionChart (Object thirds) canvas_page))) = 3"
    by (simp_all add: drawn_thirds)
  have z: "list_all (\<lambda>x. 0 \<le> x)
             (dataset_data (drawn (initializeRiskDistributionChart (Object no_risk) canvas_page)))"
    "sum_list (dataset_data
       (drawn (initializeRiskDistributionChart (Object no_risk) canvas_page))) < 2 ^ 53"
    "sum_list (dataset_data
       (drawn (initializeRiskDistributionChart (Object no_risk) canvas_page))) = 0"
    by (simp_all add: drawn_no_risk)
  from risk_tooltip_percentages [OF p t(1,2)] t(3) obtain n where
    "sum_tenths (slice_percentages
       (drawn (initializeRiskDistributionChart (Object thirds) canvas_page))) = Some n"
    "\<bar>n - 1000\<bar> \<le> 1"
    by auto
  then have s: "sum_tenths (slice_percentages
       (drawn (initializeRiskDistributionChart (Object thirds) canvas_page))) = Some 999"
    by (simp add: slice_percentages_thirds percentage_tenths_def)
  from risk_tooltip_percentages [OF p z(1,2)] z(3)
  have "slice_percentages (drawn (initializeRiskDistributionChart (Object no_risk) canvas_page))
        = [Zero, Zero, Zero]"
    by simp
  with p t(1,3) s z(3) show ?thesis by simp
qed

lemma canvas_page_ids:
  "getElementById canvas_page ''riskDistributionChart'' = Some ''riskDistributionChart''"
  "getElementById canvas_page ''assessmentTrendsChart'' = Some ''assessmentTrendsChart''"
  by (simp_all add: getElementById_def canvas_page_def)

lemma bare_page_ids:
  "getElementById bare_page ''riskDistributionChart'' = None"
  "getElementById bare_page ''assessmentTrendsChart'' = None"
  by (simp_all add: getElementById_def bare_page_def canvas_page_def)

text \<open>
  C4: for every dataset array, the tooltip label callback of the doughnut chart never
  divides by zero: no divisor in the trace of its divisions is 0. When the total of the
  dataset values is 0, the percentage is the number 0 and no division is evaluated. When
  the total is strictly positive, the one division is by the total, and the percentage is
  \<^verbatim>\<open>toFixed(1)\<close> of the double \<^verbatim>\<open>value / total * 100\<close>; \<^verbatim>\<open>toFixed(1)\<close> of a double below
  \<open>10 ^ 21\<close> in magnitude is that double rounded to one decimal place (a numeral within
  0.05 of it). For counts that are not negative, with a value that is at most the total
  and a total of at most \<open>2 ^ 40\<close>, the percentage is moreover within 0.05 of the exact
  quotient: the rounding of the double arithmetic changes the result only where the exact
  percentage lies half-way between two tenths, as for 23 of 80, shown as 28.7.
\<close>

theorem tooltip_percentage_no_zero_division:
  "Fin 0 \<notin> set (snd (tooltip_percentage c))
   \<and> (dataset_total (ctx_data c) = Fin 0 \<longrightarrow> tooltip_percentage c = (Zero, []))
   \<and> (js_gt (dataset_total (ctx_data c)) (Fin 0) \<longrightarrow>
        tooltip_percentage c
        = (toFixed1 (js_mul (js_div (num_of_int (ctx_parsed c)) (dataset_total (ctx_data c)))
                       (Fin 100)),
           [dataset_total (ctx_data c)]))
   \<and> (\<forall>x. \<bar>x\<bar> < 10 ^ 21 \<longrightarrow>
          percentage_tenths (toFixed1 (Fin x)) = Some (toFixed1_n x)
          \<and> \<bar>of_int (toFixed1_n x) / 10 - x\<bar> \<le> 1 / 20)
   \<and> (list_all (\<lambda>x. 0 \<le> x) (ctx_data c) \<and> 0 \<le> ctx_parsed c
        \<and> ctx_parsed c \<le> sum_list (ctx_data c)
        \<and> 0 < sum_list (ctx_data c) \<and> sum_list (ctx_data c) \<le> 2 ^ 40 \<longrightarrow>
          (\<exists>n. tooltip_percentage c = (Fixed1 False n, [Fin (of_int (sum_list (ctx_data c)))])
               \<and> \<bar>of_nat n / 10
                    - 100 * of_int (ctx_parsed c) / of_int (sum_list (ctx_data c))\<bar>
                   \<le> (1 / 20 :: rat)))"
proof -
  have zero: "tooltip_percentage c = (Zero, [])" if "dataset_total (ctx_data c) = Fin 0"
    using that by (simp add: tooltip_percentage_def)
  have pos: "tooltip_percentage c
        = (toFixed1 (js_mul (js_div (num_of_int (ctx_parsed c)) (dataset_total (ctx_data c)))
                       (Fin 100)),
           [dataset_total (ctx_data c)])"
    if "js_gt (dataset_total (ctx_data c)) (Fin 0)"
    using that by (simp add: tooltip_percentage_def Let_def js_div_traced_def)
  have counts: "\<exists>n. tooltip_percentage c = (Fixed1 False n, [Fin (of_int (sum_list (ctx_data c)))])
               \<and> \<bar>of_nat n / 10
                    - 100 * of_int (ctx_parsed c) / of_int (sum_list (ctx_data c))\<bar>
                   \<le> (1 / 20 :: rat)"
    if ds: "list_all (\<lambda>x. 0 \<le> x) (ctx_data c)" and v: "0 \<le> ctx_parsed c"
      "ctx_parsed c \<le> sum_list (ctx_data c)"
      and t: "0 < sum_list (ctx_data c)" "sum_list (ctx_data c) \<le> 2 ^ 40"
  proof -
    have "(2::int) ^ 40 < 2 ^ 53" by simp
    with t(2) have t53: "sum_list (ctx_data c) < 2 ^ 53" by linarith
    from tooltip_percentage_counts [OF ds v t(1) t53] obtain x where
      p: "tooltip_percentage c
            = (Fixed1 False (nat (toFixed1_n x)), [Fin (of_int (sum_list (ctx_data c)))])"
      and x0: "0 \<le> x"
      and err: "\<bar>x - 100 * of_int (ctx_parsed c) / of_int (sum_list (ctx_data c))\<bar>
                \<le> 300 / 2 ^ 53"
      by blast
    from nearest_tenth_of_quotient [OF t err]
    have "\<bar>of_int (toFixed1_n x) - 1000 * of_int (ctx_parsed c) / of_int (sum_list (ctx_data c))\<bar>
          \<le> (1 / 2 :: rat)" .
    then have "\<bar>of_int (toFixed1_n x) / 10
                 - 100 * of_int (ctx_parsed c) / of_int (sum_list (ctx_data c))\<bar>
               \<le> (1 / 20 :: rat)"
      by (simp add: abs_le_iff field_simps)
    moreover have "(of_nat (nat (toFixed1_n x)) :: rat) = of_int (toFixed1_n x)"
      using toFixed1_n_nonneg [OF x0] by (rule of_nat_nat)
    ultimately have "\<bar>of_nat (nat (toFixed1_n x)) / 10
                 - 100 * of_int (ctx_parsed c) / of_int (sum_list (ctx_data c))\<bar>
               \<le> (1 / 20 :: rat)"
      by (simp only:)
    with p show ?thesis by blast
  qed
  from tooltip_percentage_trace zero pos toFixed1_rounds counts show ?thesis
    by blast
qed

theorem tooltip_percentage_no_zero_division_witness:
  "dataset_total (ctx_data zero_context) = Fin 0
   \<and> tooltip_percentage zero_context = (Zero, [])
   \<and> js_gt (dataset_total (ctx_data third_context)) (Fin 0)
   \<and> tooltip_percentage third_context = (Fixed1 False 333, [Fin 3])
   \<and> list_all (\<lambda>x. 0 \<le> x) (ctx_data tie_context) \<and> 0 \<le> ctx_parsed tie_context
   \<and> ctx_parsed tie_context \<le> sum_list (ctx_data tie_context)
   \<and> 0 < sum_list (ctx_data tie_context) \<and> sum_list (ctx_data tie_context) \<le> 2 ^ 40
   \<and> tooltip_percentage tie_context = (Fixed1 False 287, [Fin 80])
   \<and> \<bar>of_nat 287 / 10 - 100 * of_int 23 / of_int 80\<bar> \<le> (1 / 20 :: rat)"
proof -
  have z: "dataset_total (ctx_data zero_context) = Fin 0"
    using dataset_total_exact [of "[0, 0, 0]"] by (simp add: zero_context_def)
  have t: "dataset_total (ctx_data third_context) = Fin 3"
    using dataset_total_exact [of "[1, 1, 1]"] by (simp add: third_context_def)
  then have g: "js_gt (dataset_total (ctx_data third_context)) (Fin 0)"
    by simp
  have h: "list_all (\<lambda>x. 0 \<le> x) (ctx_data tie_context)" "0 \<le> ctx_parsed tie_context"
    "ctx_parsed tie_context \<le> sum_list (ctx_data tie_context)"
    "0 < sum_list (ctx_data tie_context)" "sum_list (ctx_data tie_context) \<le> 2 ^ 40"
    by (simp_all add: tie_context_def)
  from tooltip_percentage_no_zero_division [of zero_context] z
  have 1: "tooltip_percentage zero_context = (Zero, [])"
    by blast
  have 2: "tooltip_percentage third_context = (Fixed1 False 333, [Fin 3])"
    by (rule tooltip_percentage_third) (simp_all add: third_context_def)
  from tooltip_percentage_no_zero_division [of tie_context] h obtain n where
    "tooltip_percentage tie_context = (Fixed1 False n, [Fin (of_int (sum_list (ctx_data tie_context)))])"
    "\<bar>of_nat n / 10 - 100 * of_int (ctx_parsed tie_context)
        / of_int (sum_list (ctx_data tie_context))\<bar> \<le> (1 / 20 :: rat)"
    by blast
  then have 3: "tooltip_percentage tie_context = (Fixed1 False 287, [Fin 80])"
    "\<bar>of_nat 287 / 10 - 100 * of_int 23 / of_int 80\<bar> \<le> (1 / 20 :: rat)"
    by (simp_all add: tooltip_percentage_tie) 
  from z 1 g 2 h 3 show ?thesis by (simp only: simp_thms)
qed

text \<open>\<^verbatim>\<open>v || 0\<close> is \<open>v\<close> for a number and 0 for a missing key: the falsy number is 0 itself.\<close>

lemma num_or_0: "num_or v 0 = (case v of None \<Rightarrow> 0 | Some n \<Rightarrow> n)"
  by (simp add: num_or_def split: option.splits)

text \<open>
  C5: for every riskDistribution object, with any of the keys \<^verbatim>\<open>low_risk\<close>,
  \<^verbatim>\<open>moderate_risk\<close>, \<^verbatim>\<open>high_risk\<close> missing, the doughnut chart is drawn and its dataset has
  0 for each missing key and the supplied number for each present key. Likewise the trends
  chart is drawn with the default labels (the seven week days) when \<^verbatim>\<open>labels\<close> is missing
  and with seven zeros when \<^verbatim>\<open>counts\<close> is missing, and with the supplied arrays otherwise.
\<close>

theorem chart_defaults:
  "(getElementById pg ''riskDistributionChart'' \<noteq> None \<longrightarrow>
      fst (initializeRiskDistributionChart (Object d) pg) = Inr ()
      \<and> dataset_data (drawn (initializeRiskDistributionChart (Object d) pg)) =
          [case d ''low_risk'' of None \<Rightarrow> 0 | Some v \<Rightarrow> v,
           case d ''moderate_risk'' of None \<Rightarrow> 0 | Some v \<Rightarrow> v,
           case d ''high_risk'' of None \<Rightarrow> 0 | Some v \<Rightarrow> v])
   \<and> (getElementById pg ''assessmentTrendsChart'' \<noteq> None \<longrightarrow>
      fst (initializeAssessmentTrendsChart (Object t) pg) = Inr ()
      \<and> chart_labels (drawn (initializeAssessmentTrendsChart (Object t) pg)) =
          (case labels t of None \<Rightarrow> [''Mon'', ''Tue'', ''Wed'', ''Thu'', ''Fri'', ''Sat'', ''Sun'']
           | Some ls \<Rightarrow> ls)
      \<and> dataset_data (drawn (initializeAssessmentTrendsChart (Object t) pg)) =
          (case counts t of None \<Rightarrow> [0, 0, 0, 0, 0, 0, 0] | Some cs \<Rightarrow> cs))"
proof -
  have risk: "fst (initializeRiskDistributionChart (Object d) pg) = Inr ()
      \<and> dataset_data (drawn (initializeRiskDistributionChart (Object d) pg)) =
          [case d ''low_risk'' of None \<Rightarrow> 0 | Some v \<Rightarrow> v,
           case d ''moderate_risk'' of None \<Rightarrow> 0 | Some v \<Rightarrow> v,
           case d ''high_risk'' of None \<Rightarrow> 0 | Some v \<Rightarrow> v]"
    if "getElementById pg ''riskDistributionChart'' = Some ctx" for ctx
    by (simp add: risk_chart_drawn [OF that] drawn_new_Chart num_or_0)
  have trends: "fst (initializeAssessmentTrendsChart (Object t) pg) = Inr ()
      \<and> chart_labels (drawn (initializeAssessmentTrendsChart (Object t) pg)) =
          (case labels t of None \<Rightarrow> [''Mon'', ''Tue'', ''Wed'', ''Thu'', ''Fri'', ''Sat'', ''Sun'']
           | Some ls \<Rightarrow> ls)
      \<and> dataset_data (drawn (initializeAssessmentTrendsChart (Object t) pg)) =
          (case counts t of None \<Rightarrow> [0, 0, 0, 0, 0, 0, 0] | Some cs \<Rightarrow> cs)"
    if "getElementById pg ''assessmentTrendsChart'' = Some ctx" for ctx
    using that
    by (simp add: initializeAssessmentTrendsChart_def get_prop_def drawn_new_Chart arr_or_def)
  from risk trends show ?thesis by auto
qed

theorem chart_defaults_witness:
  "getElementById canvas_page ''riskDistributionChart'' \<noteq> None
   \<and> dataset_data (drawn (initializeRiskDistributionChart (Object only_high) canvas_page))
       = [0, 0, 7]
   \<and> getElementById canvas_page ''assessmentTrendsChart'' \<noteq> None
   \<and> chart_labels (drawn (initializeAssessmentTrendsChart (Object no_trends) canvas_page))
       = [''Mon'', ''Tue'', ''Wed'', ''Thu'', ''Fri'', ''Sat'', ''Sun'']
   \<and> dataset_data (drawn (initializeAssessmentTrendsChart (Object no_trends) canvas_page))
       = [0, 0, 0, 0, 0, 0, 0]
   \<and> chart_labels (drawn (initializeAssessmentTrendsChart (Object all_trends) canvas_page))
       = [''W1'', ''W2'']
   \<and> dataset_data (drawn (initializeAssessmentTrendsChart (Object all_trends) canvas_page))
       = [4, 9]"
  using chart_defaults [of canvas_page only_high no_trends]
    chart_defaults [of canvas_page only_high all_trends]
  by (simp add: canvas_page_ids only_high_def no_trends_def all_trends_def)

text \<open>
  C9: for every input data (an object, \<^verbatim>\<open>undefined\<close> or \<^verbatim>\<open>null\<close>), when the container
  element of a chart is absent, \<^verbatim>\<open>initializeRiskDistributionChart\<close> and
  \<^verbatim>\<open>initializeAssessmentTrendsChart\<close> return normally, construct no chart and leave the
  whole page as it was.
\<close>

theorem absent_container_noop:
  "(getElementById pg ''riskDistributionChart'' = None \<longrightarrow>
      initializeRiskDistributionChart rdata pg = (Inr (), pg))
   \<and> (getElementById pg ''assessmentTrendsChart'' = None \<longrightarrow>
      initializeAssessmentTrendsChart tdata pg = (Inr (), pg))"
  by (simp add: initializeRiskDistributionChart_def initializeAssessmentTrendsChart_def)

theorem absent_container_noop_witness:
  "getElementById bare_page ''riskDistributionChart'' = None
   \<and> initializeRiskDistributionChart (Object thirds) bare_page = (Inr (), bare_page)
   \<and> initializeRiskDistributionChart Undefined bare_page = (Inr (), bare_page)
   \<and> getElementById bare_page ''assessmentTrendsChart'' = None
   \<and> initializeAssessmentTrendsChart (Object all_trends) bare_page = (Inr (), bare_page)
   \<and> initializeAssessmentTrendsChart Null bare_page = (Inr (), bare_page)"
  using absent_container_noop [of bare_page "Object thirds" "Object all_trends"]
    absent_container_noop [of bare_page Undefined Null]
  by (simp add: bare_page_ids)

text \<open>
  C10: when the container element is present and the data argument itself is
  \<^verbatim>\<open>undefined\<close> or \<^verbatim>\<open>null\<close>, \<^verbatim>\<open>initializeRiskDistributionChart\<close> and
  \<^verbatim>\<open>initializeAssessmentTrendsChart\<close> throw a TypeError and construct no chart; for a
  present object, whatever keys it lacks, they return normally: the defaulting covers the
  missing keys of a present object only.
\<close>

theorem absent_data_throws:
  "(getElementById pg ''riskDistributionChart'' \<noteq> None \<longrightarrow>
      initializeRiskDistributionChart Undefined pg = (Inl TypeError, pg)
      \<and> initializeRiskDistributionChart Null pg = (Inl TypeError, pg)
      \<and> fst (initializeRiskDistributionChart (Object d) pg) = Inr ())
   \<and> (getElementById pg ''assessmentTrendsChart'' \<noteq> None \<longrightarrow>
      initializeAssessmentTrendsChart Undefined pg = (Inl TypeError, pg)
      \<and> initializeAssessmentTrendsChart Null pg = (Inl TypeError, pg)
      \<and> fst (initializeAssessmentTrendsChart (Object t) pg) = Inr ())"
  by (auto simp add: initializeRiskDistributionChart_def initializeAssessmentTrendsChart_def
      risk_dataset_def get_prop_def)

theorem absent_data_throws_witness:
  "getElementById canvas_page ''riskDistributionChart'' \<noteq> None
   \<and> initializeRiskDistributionChart Undefined canvas_page = (Inl TypeError, canvas_page)
   \<and> initializeRiskDistributionChart Null canvas_page = (Inl TypeError, canvas_page)
   \<and> fst (initializeRiskDistributionChart (Object no_risk) canvas_page) = Inr ()
   \<and> getElementById canvas_page ''assessmentTrendsChart'' \<noteq> None
   \<and> initializeAssessmentTrendsChart Undefined canvas_page = (Inl TypeError, canvas_page)
   \<and> initializeAssessmentTrendsChart Null canvas_page = (Inl TypeError, canvas_page)
   \<and> fst (initializeAssessmentTrendsChart (Object no_trends) canvas_page) = Inr ()"
  using absent_data_throws [of canvas_page no_risk no_trends]
  by (simp add: canvas_page_ids)

section \<open>Refreshing the KPI cards\<close>

lemma console_log_kpi: "kpi_h3 (console_log m pg) = kpi_h3 pg"
  by (simp add: console_log_def)

text \<open>
  What a successful refresh does do: when the four \<^verbatim>\<open>h3\<close> elements exist and the four
  fetched values are numbers other than 0, every counter shows its fetched value.
\<close>

lemma refresh_shows_nonzero_counters:
  assumes "kpi_h3 pg 1 = Some e1" "kpi_h3 pg 2 = Some e2" "kpi_h3 pg 3 = Some e3"
    "kpi_h3 pg 4 = Some e4"
    and "s ''totalPatients'' = Some v1" "s ''totalAssessments'' = Some v2"
    "s ''highRiskCount'' = Some v3" "s ''assessmentsThisWeek'' = Some v4"
    and "v1 \<noteq> 0" "v2 \<noteq> 0" "v3 \<noteq> 0" "v4 \<noteq> 0"
  shows "displayed_counters
           (snd (refreshDashboardData (FetchResponse True (Inr (Object \<lparr>stats = Object s\<rparr>))) pg))
         = [Some (number_to_string v1), Some (number_to_string v2),
            Some (number_to_string v3), Some (number_to_string v4)]"
  using assms
  by (simp add: refreshDashboardData_def refresh_try_def get_prop_def updateKPICards_def
      kpiElements_def querySelector_kpi_def show_stat_def console_log_def displayed_counters_def)

text \<open>
  A document without \<^verbatim>\<open>stats\<close> (or with \<^verbatim>\<open>stats: null\<close>) makes \<^verbatim>\<open>stats[key]\<close> throw at the
  first element that exists, before anything is updated; the exception is caught.
\<close>

lemma forEach_key_no_stats:
  assumes "st = Undefined \<or> st = Null"
  shows "snd (forEach_key es st pg) = pg"
  using assms
  by (induction es st pg rule: forEach_key.induct)
    (auto simp add: get_prop_def split: option.splits)

lemma refresh_without_stats_keeps_counters:
  assumes "st = Undefined \<or> st = Null"
  shows "kpi_h3 (snd (refreshDashboardData (FetchResponse True (Inr (Object \<lparr>stats = st\<rparr>))) pg))
         = kpi_h3 pg"
proof -
  have "snd (updateKPICards st pg) = pg"
    by (simp add: updateKPICards_def forEach_key_no_stats [OF assms])
  then show ?thesis
    by (cases "updateKPICards st pg")
      (auto simp add: refreshDashboardData_def refresh_try_def get_prop_def console_log_kpi
        split: sum.splits)
qed

text \<open>
  C2 fails on the code. The page shows the counters 12, 30, 3 and 5; a successful refresh
  fetches the snapshot \<^verbatim>\<open>{totalPatients: 15, totalAssessments: 31, highRiskCount: 0,
  assessmentsThisWeek: 6}\<close>. The condition \<^verbatim>\<open>element && stats[key]\<close> is false for the value
  0, so the high-risk counter is not updated: the page then shows 15, 31, 3 and 6.
\<close>

theorem refresh_keeps_stale_zero_counter:
  "fst (refreshDashboardData zero_high_fetch canvas_page) = Inr ()
   \<and> displayed_counters canvas_page = [Some ''12'', Some ''30'', Some ''3'', Some ''5'']
   \<and> displayed_counters (snd (refreshDashboardData zero_high_fetch canvas_page))
       = [Some ''15'', Some ''31'', Some ''3'', Some ''6'']"
  by (simp add: refreshDashboardData_def refresh_try_def zero_high_fetch_def get_prop_def
      updateKPICards_def kpiElements_def querySelector_kpi_def canvas_page_def
      zero_high_stats_def show_stat_def console_log_def displayed_counters_def
      number_to_string_def digits.simps)

text \<open>
  C3: \<^verbatim>\<open>refreshDashboardData\<close> never propagates an exception: for every outcome of the
  fetch its promise resolves. For every failing refresh (the fetch rejects with a network
  error, the response is not OK, or the body of an OK response does not parse) every KPI
  element is left as it was, and so is every displayed counter.
\<close>

theorem refresh_failure_keeps_counters:
  "fst (refreshDashboardData f pg) = Inr ()
   \<and> kpi_h3 (snd (refreshDashboardData FetchRejected pg)) = kpi_h3 pg
   \<and> kpi_h3 (snd (refreshDashboardData (FetchResponse False body) pg)) = kpi_h3 pg
   \<and> kpi_h3 (snd (refreshDashboardData (FetchResponse True (Inl e)) pg)) = kpi_h3 pg
   \<and> displayed_counters (snd (refreshDashboardData FetchRejected pg)) = displayed_counters pg
   \<and> displayed_counters (snd (refreshDashboardData (FetchResponse False body) pg))
       = displayed_counters pg
   \<and> displayed_counters (snd (refreshDashboardData (FetchResponse True (Inl e)) pg))
       = displayed_counters pg"
proof -
  have "fst (refreshDashboardData f pg) = Inr ()"
    by (simp add: refreshDashboardData_def split: prod.splits sum.splits)
  moreover have "kpi_h3 (snd (refreshDashboardData FetchRejected pg)) = kpi_h3 pg"
    by (simp add: refreshDashboardData_def refresh_try_def console_log_kpi)
  moreover have "kpi_h3 (snd (refreshDashboardData (FetchResponse False body) pg)) = kpi_h3 pg"
    by (simp add: refreshDashboardData_def refresh_try_def)
  moreover have "kpi_h3 (snd (refreshDashboardData (FetchResponse True (Inl e)) pg)) = kpi_h3 pg"
    by (simp add: refreshDashboardData_def refresh_try_def console_log_kpi)
  ultimately show ?thesis
    by (simp add: displayed_counters_def)
qed

section \<open>KPI card clicks\<close>

text \<open>
  C8: the click handler of the KPI card at index 0 and the one at index 1 navigate to
  \<^verbatim>\<open>/patients\<close>, the one at index 2 to \<^verbatim>\<open>/patients?filter=high_risk\<close> and the one at
  index 3 to \<^verbatim>\<open>/patients?filter=recent\<close>, whatever the page was.
\<close>

theorem kpi_card_navigation:
  "location_href (kpi_card_click 0 pg) = ''/patients''
   \<and> location_href (kpi_card_click 1 pg) = ''/patients''
   \<and> location_href (kpi_card_click 2 pg) = ''/patients?filter=high_risk''
   \<and> location_href (kpi_card_click 3 pg) = ''/patients?filter=recent''"
  by (simp add: kpi_card_click_def kpi_card_target_def Let_def)

section \<open>The search filter\<close>

text \<open>\<open>js_includes\<close> is the substring test.\<close>

lemma includes_iff: "js_includes s t \<longleftrightarrow> (\<exists>ps ss. s = ps @ t @ ss)"
proof (induction s)
  case Nil
  then show ?case by auto
next
  case (Cons c cs)
  have "take (length t) (c # cs) = t \<longleftrightarrow> (\<exists>ss. c # cs = t @ ss)"
    by (metis append_eq_conv_conj append_take_drop_id)
  moreover have "(\<exists>ps ss. c # cs = ps @ t @ ss)
      \<longleftrightarrow> (\<exists>ss. c # cs = t @ ss) \<or> (\<exists>ps ss. cs = ps @ t @ ss)"
  proof
    assume "\<exists>ps ss. c # cs = ps @ t @ ss"
    then obtain ps ss where e: "c # cs = ps @ t @ ss" by blast
    show "(\<exists>ss. c # cs = t @ ss) \<or> (\<exists>ps ss. cs = ps @ t @ ss)"
    proof (cases ps)
      case Nil
      with e show ?thesis by auto
    next
      case (Cons p ps')
      with e have "cs = ps' @ t @ ss" by simp
      then show ?thesis by blast
    qed
  next
    assume "(\<exists>ss. c # cs = t @ ss) \<or> (\<exists>ps ss. cs = ps @ t @ ss)"
    then show "\<exists>ps ss. c # cs = ps @ t @ ss"
    proof
      assume "\<exists>ss. c # cs = t @ ss"
      then obtain ss where "c # cs = [] @ t @ ss" by auto
      then show ?thesis by blast
    next
      assume "\<exists>ps ss. cs = ps @ t @ ss"
      then obtain ps ss where "c # cs = (c # ps) @ t @ ss" by auto
      then show ?thesis by blast
    qed
  qed
  ultimately show ?case using Cons.IH by simp
qed

text \<open>
  C7: for every search query and every list of target items, whatever the lower-casing
  function, the filter keeps the items and their texts, and sets the display of each item
  by a substring test on the lower-cased texts: an item whose lower-cased text contains
  the lower-cased query gets its display restored (the empty string), every other item
  gets the display \<^verbatim>\<open>none\<close>.
\<close>

theorem search_filter_visibility:
  "length (search_filter lower q items) = length items
   \<and> (\<forall>i < length items.
        item_text (search_filter lower q items ! i) = item_text (items ! i)
        \<and> display (search_filter lower q items ! i)
            = (if \<exists>ps ss. lower (item_text (items ! i)) = ps @ lower q @ ss
               then '''' else ''none''))"
  by (simp add: search_filter_def Let_def includes_iff)

lemma list_of_two: "length xs = 2 \<Longrightarrow> xs = [xs ! 0, xs ! 1]"
proof -
  assume "length xs = 2"
  then obtain x y where "xs = [x, y]"
    by (metis (no_types) Suc_length_conv length_0_conv numeral_2_eq_2)
  then show ?thesis by simp
qed

theorem search_filter_visibility_witness:
  "length patient_rows = 2
   \<and> map display (search_filter ascii_lower ''doe'' patient_rows) = ['''', ''none'']
   \<and> map item_text (search_filter ascii_lower ''doe'' patient_rows)
       = [''Jane DOE'', ''John Smith'']"
proof -
  let ?r = "search_filter ascii_lower ''doe'' patient_rows"
  note v = search_filter_visibility [of ascii_lower "''doe''" patient_rows]
  have l: "length patient_rows = 2" by (simp add: patient_rows_def)
  have a: "\<exists>ps ss. ascii_lower (item_text (patient_rows ! 0)) = ps @ ascii_lower ''doe'' @ ss"
    unfolding includes_iff [symmetric] by (simp add: ascii_lower_def patient_rows_def)
  have b: "\<not> (\<exists>ps ss. ascii_lower (item_text (patient_rows ! 1)) = ps @ ascii_lower ''doe'' @ ss)"
    unfolding includes_iff [symmetric] by (simp add: ascii_lower_def patient_rows_def)
  have n: "length ?r = 2"
    using v [THEN conjunct1] l by (simp only:)
  have i0: "item_text (?r ! 0) = ''Jane DOE'' \<and> display (?r ! 0) = ''''"
    using v [THEN conjunct2, rule_format, of 0] l a by (simp add: patient_rows_def)
  have i1: "item_text (?r ! 1) = ''John Smith'' \<and> display (?r ! 1) = ''none''"
    using v [THEN conjunct2, rule_format, of 1] l b by (simp add: patient_rows_def)
  have "map display ?r = map display [?r ! 0, ?r ! 1]"
    and "map item_text ?r = map item_text [?r ! 0, ?r ! 1]"
    using list_of_two [OF n] by (rule arg_cong)+
  with l i0 i1 show ?thesis by (simp only: list.map)
qed

section \<open>Debounce\<close>

lemma run_until_none_due:
  assumes "filter (\<lambda>x. fst (snd x) \<le> t) (queue s) = []"
  shows "run_until t s = s\<lparr>clock := t\<rparr>"
  by (subst run_until.simps) (simp add: assms)

lemma armed_call:
  assumes "armed wait a s" and "gap < wait"
  shows "armed wait b (executedFunction wait b (run_until (clock s + gap) s))
         \<and> clock (executedFunction wait b (run_until (clock s + gap) s)) = clock s + gap"
proof -
  from assms(1) obtain i where i: "timeout s = Some i" "queue s = [(i, clock s + wait, a)]"
    and c: "calls s = []"
    by (auto simp add: armed_def split: option.splits)
  from i(2) assms(2) have "run_until (clock s + gap) s = s\<lparr>clock := clock s + gap\<rparr>"
    by (intro run_until_none_due) simp
  then show ?thesis
    using i c by (simp add: executedFunction_def clearTimeout_def armed_def Let_def)
qed

lemma idle_call:
  assumes "queue s = []" and "calls s = []"
  shows "armed wait b (executedFunction wait b (run_until t s))
         \<and> clock (executedFunction wait b (run_until t s)) = t"
proof -
  from assms(1) have "run_until t s = s\<lparr>clock := t\<rparr>"
    by (intro run_until_none_due) simp
  then show ?thesis
    using assms by (simp add: executedFunction_def clearTimeout_def armed_def Let_def split: option.splits)
qed

lemma armed_burst:
  assumes "armed wait a s" and "list_all (\<lambda>c. fst c < wait) cs"
  shows "armed wait (last (a # map snd cs)) (run_calls wait cs s)
         \<and> clock (run_calls wait cs s) = clock s + sum_list (map fst cs)"
  using assms
proof (induction cs arbitrary: a s)
  case Nil
  then show ?case by simp
next
  case (Cons c cs)
  obtain gap b where c: "c = (gap, b)" by (cases c)
  with Cons.prems have gap: "gap < wait" and rest: "list_all (\<lambda>c. fst c < wait) cs"
    by simp_all
  let ?s = "executedFunction wait b (run_until (clock s + gap) s)"
  from armed_call [OF Cons.prems(1) gap, of b]
  have a: "armed wait b ?s" and k: "clock ?s = clock s + gap"
    by simp_all
  from Cons.IH [OF a rest] k show ?case
    by (simp add: c)
qed

lemma armed_quiet:
  assumes "armed wait a s" and "t < clock s + wait"
  shows "run_until t s = s\<lparr>clock := t\<rparr>"
proof -
  from assms(1) obtain i where "queue s = [(i, clock s + wait, a)]"
    by (auto simp add: armed_def split: option.splits)
  with assms(2) show ?thesis
    by (intro run_until_none_due) simp
qed

lemma armed_fires:
  assumes "armed wait a s" and "clock s + wait \<le> t"
  shows "run_until t s = s\<lparr>clock := t, queue := [], calls := [a]\<rparr>"
proof -
  from assms(1) obtain i where i: "timeout s = Some i" "queue s = [(i, clock s + wait, a)]"
    and c: "calls s = []"
    by (auto simp add: armed_def split: option.splits)
  let ?s = "later a (s\<lparr>clock := clock s + wait, queue := filter (\<lambda>y. fst y \<noteq> i) (queue s)\<rparr>)"
  have s': "?s = s\<lparr>clock := clock s + wait, queue := [], calls := [a]\<rparr>"
    using i c by (simp add: later_def clearTimeout_def)
  have "run_until t s = run_until t ?s"
    using i assms(2) by (subst run_until.simps) simp
  also have "\<dots> = ?s\<lparr>clock := t\<rparr>"
    by (intro run_until_none_due) (simp add: s')
  finally show ?thesis
    by (simp add: s')
qed

text \<open>
  C6: take any burst of N >= 1 calls of a debounced function, made on a fresh closure,
  in which every call after the first comes less than \<open>wait\<close> milliseconds after the call
  before it. The last call is made at the sum of the gaps. The wrapped function does not
  run during the burst, nor at any time before the last call's quiet window has elapsed;
  from the moment it has elapsed (\<open>wait\<close> after the last call) the wrapped function has
  run exactly once, with the arguments of the last call, and no timer is left pending, so
  it does not run again.
\<close>

theorem debounce_runs_last_call_once:
  fixes cs :: "(nat \<times> 'a) list"
  assumes "cs \<noteq> []" and "list_all (\<lambda>c. fst c < wait) (tl cs)"
  shows "clock (run_calls wait cs debounce_init) = sum_list (map fst cs)
         \<and> calls (run_calls wait cs debounce_init) = []
         \<and> (\<forall>t. t < sum_list (map fst cs) + wait \<longrightarrow>
               calls (run_until t (run_calls wait cs debounce_init)) = [])
         \<and> (\<forall>t. sum_list (map fst cs) + wait \<le> t \<longrightarrow>
               calls (run_until t (run_calls wait cs debounce_init)) = [snd (last cs)]
               \<and> queue (run_until t (run_calls wait cs debounce_init)) = [])"
proof -
  from assms(1) obtain gap b cs' where cs: "cs = (gap, b) # cs'"
    by (cases cs) auto
  let ?i = "debounce_init :: 'a debounce_state"
  let ?s1 = "executedFunction wait b (run_until (clock ?i + gap) ?i)"
  let ?s = "run_calls wait cs debounce_init"
  have "armed wait b ?s1 \<and> clock ?s1 = clock ?i + gap"
    by (rule idle_call) (simp_all add: debounce_init_def)
  then have a1: "armed wait b ?s1" and k1: "clock ?s1 = gap"
    by (simp_all add: debounce_init_def)
  from assms(2) have "list_all (\<lambda>c. fst c < wait) cs'"
    by (simp add: cs)
  from armed_burst [OF a1 this]
  have b1: "armed wait (last (b # map snd cs')) (run_calls wait cs' ?s1)"
    and b2: "clock (run_calls wait cs' ?s1) = gap + sum_list (map fst cs')"
    by (simp_all only: k1)
  have lst: "last (b # map snd cs') = snd (last cs)"
    unfolding cs by (cases "cs' = []") (simp_all add: last_map)
  have e: "run_calls wait cs' ?s1 = ?s"
    by (simp add: cs)
  have sm: "gap + sum_list (map fst cs') = sum_list (map fst cs)"
    by (simp add: cs)
  from b1 have a: "armed wait (snd (last cs)) ?s"
    unfolding lst e .
  from b2 have k: "clock ?s = sum_list (map fst cs)"
    unfolding sm e .
  from a have "calls ?s = []"
    by (simp add: armed_def)
  moreover have "calls (run_until t ?s) = []" if "t < sum_list (map fst cs) + wait" for t
    using armed_quiet [OF a, of t] that a by (simp add: k armed_def)
  moreover have "calls (run_until t ?s) = [snd (last cs)] \<and> queue (run_until t ?s) = []"
    if "sum_list (map fst cs) + wait \<le> t" for t
    using armed_fires [OF a, of t] that by (simp add: k)
  ultimately show ?thesis
    using k by blast
qed

theorem debounce_runs_last_call_once_witness:
  "key_strokes \<noteq> []
   \<and> list_all (\<lambda>c. fst c < 300) (tl key_strokes)
   \<and> calls (run_calls 300 key_strokes debounce_init) = []
   \<and> calls (run_until 748 (run_calls 300 key_strokes debounce_init)) = []
   \<and> calls (run_until 749 (run_calls 300 key_strokes debounce_init)) = [''doe'']
   \<and> calls (run_until 5000 (run_calls 300 key_strokes debounce_init)) = [''doe'']"
proof -
  have h1: "key_strokes \<noteq> []" and h2: "list_all (\<lambda>c. fst c < 300) (tl key_strokes)"
    by (simp_all add: key_strokes_def)
  have s: "sum_list (map fst key_strokes) = 449" and l: "snd (last key_strokes) = ''doe''"
    by (simp_all add: key_strokes_def)
  note d = debounce_runs_last_call_once [OF h1 h2, unfolded s l]
  from d have "calls (run_calls 300 key_strokes debounce_init) = []"
    by (rule conjunct2 [THEN conjunct1])
  moreover from d have "calls (run_until 748 (run_calls 300 key_strokes debounce_init)) = []"
    by simp
  moreover from d have "calls (run_until 749 (run_calls 300 key_strokes debounce_init)) = [''doe'']"
    by simp
  moreover from d have "calls (run_until 5000 (run_calls 300 key_strokes debounce_init)) = [''doe'']"
    by simp
  ultimately show ?thesis
    using h1 h2 by (simp only: simp_thms)
qed

end

